theory Spec2Isabelle
  imports Complex_Main "HOL-Library.Multiset"
begin

section \<open>Geolocation helpers (utils/helpers)\<close>

text \<open>
  A JavaScript number is a real, and a number that may be NaN is a \<open>real option\<close> with
  \<open>None\<close> for NaN. Rounding of doubles is modelled in the one place where it changes the
  kind of a result: the term \<^verbatim>\<open>a\<close> of \<^verbatim>\<open>calculateDistance\<close>, whose value in
  doubles can leave \<open>[0, 1]\<close>, so that a square root is NaN. The rounding error of that
  term is the parameter \<open>err\<close>, a property of the engine's arithmetic and of its
  \<^verbatim>\<open>Math.sin\<close> and \<^verbatim>\<open>Math.cos\<close>; all other arithmetic is exact. Dates are modelled
  by their \<^verbatim>\<open>getTime()\<close> value, an integer number of milliseconds.
\<close>


record GeoPoint =
  latitude :: real
  longitude :: real

type_synonym Rounding = "GeoPoint \<Rightarrow> GeoPoint \<Rightarrow> real"

text \<open>No rounding error, and an error of \<open>2 ^ -52\<close> at every pair of points.\<close>

definition exact :: Rounding where
  "exact point1 point2 = 0"

definition one_ulp :: Rounding where
  "one_ulp point1 point2 = 1 / 2 ^ 52"

datatype ActivityType = Stationary | Walking | Driving | Flying | Train | Cycling

text \<open>\<^verbatim>\<open>Math.sqrt\<close>: NaN on a negative argument.\<close>

definition Math_sqrt :: "real \<Rightarrow> real option" where
  "Math_sqrt x = (if x < 0 then None else Some (sqrt x))"

text \<open>
  \<^verbatim>\<open>Math.atan2(y, x)\<close> on finite arguments, quadrant by quadrant.
\<close>

definition atan2 :: "real \<Rightarrow> real \<Rightarrow> real" where
  "atan2 y x =
     (if 0 < x then arctan (y / x)
      else if x < 0 then (if 0 \<le> y then arctan (y / x) + pi else arctan (y / x) - pi)
      else if 0 < y then pi / 2
      else if y < 0 then - (pi / 2)
      else 0)"

text \<open>The exact value of the local \<^verbatim>\<open>a\<close> of \<^verbatim>\<open>calculateDistance\<close>.\<close>

definition haversine_a :: "GeoPoint \<Rightarrow> GeoPoint \<Rightarrow> real" where
  "haversine_a point1 point2 =
     (let phi1 = latitude point1 * pi / 180;
          phi2 = latitude point2 * pi / 180;
          dphi = (latitude point2 - latitude point1) * pi / 180;
          dlam = (longitude point2 - longitude point1) * pi / 180
      in sin (dphi / 2) * sin (dphi / 2) +
         cos phi1 * cos phi2 * sin (dlam / 2) * sin (dlam / 2))"

text \<open>
  \<^verbatim>\<open>calculateDistance\<close>: the term \<^verbatim>\<open>a\<close> as the doubles give it, passed to
  \<^verbatim>\<open>Math.sqrt\<close> as it is, without a clamp. \<^verbatim>\<open>Math.atan2\<close> of a NaN is NaN, and so
  is a product with a NaN.
\<close>

definition calculateDistance :: "Rounding \<Rightarrow> GeoPoint \<Rightarrow> GeoPoint \<Rightarrow> real option" where
  "calculateDistance err point1 point2 =
     (let R = 6371000;
          a = haversine_a point1 point2 + err point1 point2
      in (case (Math_sqrt a, Math_sqrt (1 - a)) of
            (Some y, Some x) \<Rightarrow> (let c = 2 * atan2 y x in Some (R * c))
          | _ \<Rightarrow> None))"

text \<open>\<^verbatim>\<open>calculateSpeed\<close>: a NaN distance divided by a positive time is NaN.\<close>

definition calculateSpeed :: "Rounding \<Rightarrow> GeoPoint \<Rightarrow> GeoPoint \<Rightarrow> int \<Rightarrow> int \<Rightarrow> real option" where
  "calculateSpeed err point1 point2 time1 time2 =
     (let distance = calculateDistance err point1 point2;
          timeDiff = real_of_int (time2 - time1) / 1000
      in if 0 < timeDiff then map_option (\<lambda>d. d / timeDiff) distance else Some 0)"

definition inferActivityFromSpeed :: "real \<Rightarrow> ActivityType" where
  "inferActivityFromSpeed speedMs =
     (if speedMs < 1.0 then Stationary
      else if speedMs < 2.0 then Walking
      else if speedMs < 20.0 then Driving
      else if speedMs < 55.0 then Train
      else Flying)"


section \<open>Retry with exponential backoff (utils/helpers)\<close>

text \<open>
  The operation \<^verbatim>\<open>fn\<close> is a state-passing function: each call reads the state of
  the outside world, fails (\<open>Inl\<close>) or succeeds (\<open>Inr\<close>), and leaves a new state.
  \<^verbatim>\<open>sleep(delay)\<close> is recorded by appending the delay to the list of delays slept
  so far. The loop variable \<^verbatim>\<open>i\<close> counts the calls made; \<^verbatim>\<open>lastError\<close> is
  \<open>None\<close> while it is still unassigned. The result is the value returned or the value
  thrown, the delays slept in order, and the final state of the outside world.
\<close>

function retryLoop ::
  "('s \<Rightarrow> ('e + 'a) \<times> 's) \<Rightarrow> int \<Rightarrow> int \<Rightarrow> nat \<Rightarrow> 'e option \<Rightarrow> int list \<Rightarrow> 's
     \<Rightarrow> ('e option + 'a) \<times> int list \<times> 's" where
  "retryLoop fn maxRetries baseDelay i lastError delays s =
     (if int i < maxRetries then
        (case fn s of
           (Inr v, s') \<Rightarrow> (Inr v, delays, s')
         | (Inl e, s') \<Rightarrow>
             retryLoop fn maxRetries baseDelay (Suc i) (Some e)
               (if int i < maxRetries - 1 then delays @ [baseDelay * 2 ^ i] else delays) s')
      else (Inl lastError, delays, s))"
  by pat_completeness auto
termination
  by (relation "measure (\<lambda>(fn, maxRetries, baseDelay, i, lastError, delays, s).
        nat (maxRetries - int i))") auto

definition retryWithBackoff ::
  "('s \<Rightarrow> ('e + 'a) \<times> 's) \<Rightarrow> int \<Rightarrow> int \<Rightarrow> 's \<Rightarrow> ('e option + 'a) \<times> int list \<times> 's" where
  "retryWithBackoff fn maxRetries baseDelay s = retryLoop fn maxRetries baseDelay 0 None [] s"

text \<open>The default arguments \<^verbatim>\<open>maxRetries = 3\<close> and \<^verbatim>\<open>baseDelay = 1000\<close>.\<close>

definition retryWithBackoff_default ::
  "('s \<Rightarrow> ('e + 'a) \<times> 's) \<Rightarrow> 's \<Rightarrow> ('e option + 'a) \<times> int list \<times> 's" where
  "retryWithBackoff_default fn s = retryWithBackoff fn 3 1000 s"

text \<open>The state of the outside world after \<open>n\<close> successive calls of the operation.\<close>

fun after_calls :: "('s \<Rightarrow> ('e + 'a) \<times> 's) \<Rightarrow> 's \<Rightarrow> nat \<Rightarrow> 's" where
  "after_calls fn s 0 = s"
| "after_calls fn s (Suc n) = after_calls fn (snd (fn s)) n"

text \<open>The outcome of call number \<open>n\<close> (counted from 0) of the operation.\<close>

definition outcome :: "('s \<Rightarrow> ('e + 'a) \<times> 's) \<Rightarrow> 's \<Rightarrow> nat \<Rightarrow> 'e + 'a" where
  "outcome fn s n = fst (fn (after_calls fn s n))"

text \<open>
  The scheduler as the specification words it, for comparison with \<open>retryWithBackoff\<close>:
  one attempt, then on failure up to \<open>maxRetries\<close> retries, retry number \<open>attempt\<close>
  (counted from 0) preceded by a delay of \<open>baseDelay * 2 ^ attempt\<close>; when the retries
  are exhausted the last error is the result.
\<close>

fun spec_retry ::
  "('s \<Rightarrow> ('e + 'a) \<times> 's) \<Rightarrow> nat \<Rightarrow> int \<Rightarrow> nat \<Rightarrow> 'e \<Rightarrow> int list \<Rightarrow> 's
     \<Rightarrow> ('e option + 'a) \<times> int list \<times> 's" where
  "spec_retry fn 0 baseDelay attempt lastError delays s = (Inl (Some lastError), delays, s)"
| "spec_retry fn (Suc retriesLeft) baseDelay attempt lastError delays s =
     (case fn s of
        (Inr v, s') \<Rightarrow> (Inr v, delays @ [baseDelay * 2 ^ attempt], s')
      | (Inl e, s') \<Rightarrow>
          spec_retry fn retriesLeft baseDelay (Suc attempt) e
            (delays @ [baseDelay * 2 ^ attempt]) s')"

definition spec_execute ::
  "('s \<Rightarrow> ('e + 'a) \<times> 's) \<Rightarrow> nat \<Rightarrow> int \<Rightarrow> 's \<Rightarrow> ('e option + 'a) \<times> int list \<times> 's" where
  "spec_execute fn maxRetries baseDelay s =
     (case fn s of
        (Inr v, s') \<Rightarrow> (Inr v, [], s')
      | (Inl e, s') \<Rightarrow> spec_retry fn maxRetries baseDelay 0 e [] s')"

text \<open>
  An operation for the examples: the state counts the calls made so far, the first \<open>k\<close>
  calls fail with their call number, and every later call succeeds.
\<close>

definition fails_then_succeeds :: "nat \<Rightarrow> nat \<Rightarrow> (nat + string) \<times> nat" where
  "fails_then_succeeds k n = (if n < k then Inl n else Inr ''ok'', Suc n)"

section \<open>Tracking configuration (utils/constants)\<close>

definition ACTIVE_INTERVAL :: int where "ACTIVE_INTERVAL = 30000"
definition IDLE_INTERVAL :: int where "IDLE_INTERVAL = 300000"
definition STATIONARY_INTERVAL :: int where "STATIONARY_INTERVAL = 600000"
definition BATTERY_SAVER_THRESHOLD :: real where "BATTERY_SAVER_THRESHOLD = 0.2"

definition TIME_CLUSTER_WINDOW :: int where "TIME_CLUSTER_WINDOW = 3600000"
definition LOCATION_CLUSTER_RADIUS :: real where "LOCATION_CLUSTER_RADIUS = 200"

section \<open>The tracker service (services/TrackerService)\<close>

datatype TrackerState = Stopped | Active | Paused

record LocationUpdate =
  location :: GeoPoint
  accuracy :: real
  altitude :: "real option"
  speed :: "real option"
  heading :: "real option"
  timestamp :: int

text \<open>
  \<^verbatim>\<open>tripId\<close> is written from \<^verbatim>\<open>this.currentTripId!\<close>, which is \<^verbatim>\<open>null\<close> at run time
  when no trip is set, so the field is optional here.
\<close>

record RawLocation =
  id' :: string
  ownerUid :: string
  tripId :: "string option"
  location :: GeoPoint
  timestamp :: int
  accuracy :: "real option"
  altitude :: "real option"
  speed :: "real option"
  heading :: "real option"
  activity :: ActivityType
  batteryLevel :: "real option"
  isProcessed :: bool

record TrackerConfig =
  isActive :: bool
  currentTripId :: "string option"
  updateInterval :: int
  distanceFilter :: real
  stationaryRadius :: real
  stopTimeout :: int

text \<open>
  The fields of the service object. A timer handle is modelled by the period of the
  live timer: \<open>None\<close> is \<^verbatim>\<open>null\<close>.
\<close>

record TrackerService =
  state :: TrackerState
  currentTripId :: "string option"
  lastLocation :: "LocationUpdate option"
  currentActivity :: ActivityType
  config :: "TrackerConfig option"
  trackingInterval :: "int option"
  syncInterval :: "int option"

text \<open>
  Local storage (utils/storage): the two keys the tracker uses. \<open>failing\<close> says that
  the underlying key-value store rejects every operation: \<^verbatim>\<open>storage.set\<close> then throws
  and \<^verbatim>\<open>storage.get\<close> returns \<^verbatim>\<open>null\<close>.
\<close>

record Storage =
  PENDING_LOCATIONS :: "RawLocation list option"
  TRACKER_CONFIG :: "TrackerConfig option"
  failing :: bool

record World =
  service :: TrackerService
  store :: Storage

text \<open>
  What the device reports. In the source both are stubs (\<^verbatim>\<open>checkLocationPermission\<close>
  returns \<^verbatim>\<open>true\<close>, \<^verbatim>\<open>getCurrentLocation\<close> returns \<^verbatim>\<open>null\<close>) standing for the native
  APIs, which are taken as parameters here.
\<close>

record Env =
  locationPermission :: bool
  deviceLocation :: "LocationUpdate option"

datatype TrackerError =
    LocationPermissionNotGranted  \<comment> \<open>\<^verbatim>\<open>Error('Location permission not granted')\<close>\<close>
  | NoActiveTripToResume  \<comment> \<open>\<^verbatim>\<open>Error('No active trip to resume')\<close>\<close>
  | StorageFailure  \<comment> \<open>whatever the key-value store throws\<close>

definition getPendingLocations :: "Storage \<Rightarrow> RawLocation list" where
  "getPendingLocations st =
     (case (if failing st then None else PENDING_LOCATIONS st) of
        None \<Rightarrow> []
      | Some locations \<Rightarrow> locations)"

definition savePendingLocation :: "Storage \<Rightarrow> RawLocation \<Rightarrow> TrackerError + Storage" where
  "savePendingLocation st loc =
     (let pending = getPendingLocations st @ [loc]
      in if failing st then Inl StorageFailure
         else Inr (st\<lparr>PENDING_LOCATIONS := Some pending\<rparr>))"

definition saveTrackerConfig :: "Storage \<Rightarrow> TrackerConfig \<Rightarrow> TrackerError + Storage" where
  "saveTrackerConfig st cfg =
     (if failing st then Inl StorageFailure else Inr (st\<lparr>TRACKER_CONFIG := Some cfg\<rparr>))"

definition checkLocationPermission :: "Env \<Rightarrow> bool" where
  "checkLocationPermission env = locationPermission env"

definition getCurrentLocation :: "Env \<Rightarrow> LocationUpdate option" where
  "getCurrentLocation env = deviceLocation env"

definition getUpdateInterval :: "TrackerService \<Rightarrow> int" where
  "getUpdateInterval t =
     (case currentActivity t of
        Stationary \<Rightarrow> STATIONARY_INTERVAL
      | Walking \<Rightarrow> ACTIVE_INTERVAL
      | Driving \<Rightarrow> ACTIVE_INTERVAL
      | Flying \<Rightarrow> ACTIVE_INTERVAL
      | Train \<Rightarrow> ACTIVE_INTERVAL
      | Cycling \<Rightarrow> IDLE_INTERVAL)"

text \<open>
  \<^verbatim>\<open>startTrackingLoop\<close> replaces the tracking timer by one of the period
  \<open>getUpdateInterval\<close>. Its last statement calls \<^verbatim>\<open>captureLocation()\<close> without
  awaiting it; that capture runs after the caller's synchronous part and is the
  separate transition \<open>captureLocation\<close> below, as is every timer tick.
\<close>

definition startTrackingLoop :: "TrackerService \<Rightarrow> TrackerService" where
  "startTrackingLoop t = t\<lparr>trackingInterval := Some (getUpdateInterval t)\<rparr>"

definition startSyncLoop :: "TrackerService \<Rightarrow> TrackerService" where
  "startSyncLoop t = t\<lparr>syncInterval := Some 300000\<rparr>"


definition startTracking :: "Env \<Rightarrow> string \<Rightarrow> World \<Rightarrow> (TrackerError + unit) \<times> World" where
  "startTracking env tid w =
     (if \<not> checkLocationPermission env then (Inl LocationPermissionNotGranted, w)
      else
        let t1 = (service w)\<lparr>currentTripId := Some tid, state := Active,
                   currentActivity := Stationary\<rparr>
        in (case config t1 of
              None \<Rightarrow> (Inr (), w\<lparr>service := startSyncLoop (startTrackingLoop t1)\<rparr>)
            | Some cfg \<Rightarrow>
                let cfg' = cfg\<lparr>isActive := True, TrackerConfig.currentTripId := Some tid\<rparr>;
                    t2 = t1\<lparr>config := Some cfg'\<rparr>
                in (case saveTrackerConfig (store w) cfg' of
                      Inl e \<Rightarrow> (Inl e, w\<lparr>service := t2\<rparr>)
                    | Inr st' \<Rightarrow>
                        (Inr (), \<lparr>service = startSyncLoop (startTrackingLoop t2),
                                  store = st'\<rparr>))))"



text \<open>\<^verbatim>\<open>!this.currentTripId\<close> holds of \<^verbatim>\<open>null\<close> and of the empty string.\<close>

definition resumeTracking :: "World \<Rightarrow> (TrackerError + unit) \<times> World" where
  "resumeTracking w =
     (case currentTripId (service w) of
        None \<Rightarrow> (Inl NoActiveTripToResume, w)
      | Some tid \<Rightarrow>
          if tid = [] then (Inl NoActiveTripToResume, w)
          else (Inr (), w\<lparr>service := startTrackingLoop ((service w)\<lparr>state := Active\<rparr>)\<rparr>))"

text \<open>
  One capture. \<open>newId\<close> is the value \<^verbatim>\<open>generateUUID()\<close> returns. Every comparison of
  \<^verbatim>\<open>inferActivityFromSpeed\<close> is false of a NaN speed, so that its last
  \<^verbatim>\<open>return 'flying'\<close> is reached. An error of the storage write is caught and logged:
  the activity is then already updated and the last location is not.
\<close>

definition captureLocation :: "Env \<Rightarrow> Rounding \<Rightarrow> string \<Rightarrow> World \<Rightarrow> World" where
  "captureLocation env err newId w =
     (case getCurrentLocation env of
        None \<Rightarrow> w
      | Some locationUpdate \<Rightarrow>
          let t = service w;
              t1 = (case lastLocation t of
                      None \<Rightarrow> t
                    | Some l \<Rightarrow>
                        t\<lparr>currentActivity :=
                            (case calculateSpeed err (LocationUpdate.location l)
                                    (LocationUpdate.location locationUpdate)
                                    (LocationUpdate.timestamp l)
                                    (LocationUpdate.timestamp locationUpdate) of
                               None \<Rightarrow> Flying
                             | Some speedMs \<Rightarrow> inferActivityFromSpeed speedMs)\<rparr>);
              rawLocation = \<lparr>id' = newId, ownerUid = ''local_user'',
                 tripId = currentTripId t1,
                 location = LocationUpdate.location locationUpdate,
                 timestamp = LocationUpdate.timestamp locationUpdate,
                 accuracy = Some (LocationUpdate.accuracy locationUpdate),
                 altitude = LocationUpdate.altitude locationUpdate,
                 speed = LocationUpdate.speed locationUpdate,
                 heading = LocationUpdate.heading locationUpdate,
                 activity = currentActivity t1,
                 batteryLevel = None,
                 isProcessed = False\<rparr>
          in (case savePendingLocation (store w) rawLocation of
                Inl e \<Rightarrow> w\<lparr>service := t1\<rparr>
              | Inr st' \<Rightarrow>
                  \<lparr>service = t1\<lparr>lastLocation := Some locationUpdate\<rparr>, store = st'\<rparr>))"


text \<open>
  Worlds for the examples, each reached from the stopped service: tracking is started
  with the permission granted, the device reports a fix at \<open>(0, 0)\<close> and, two seconds
  later, a fix at \<open>(0, 180)\<close>.
\<close>

definition stopped_world :: World where
  "stopped_world =
     \<lparr>service =
        \<lparr>state = Stopped, currentTripId = None, lastLocation = None,
         currentActivity = Stationary, config = None,
         trackingInterval = None, syncInterval = None\<rparr>,
      store = \<lparr>PENDING_LOCATIONS = None, TRACKER_CONFIG = None, failing = False\<rparr>\<rparr>"






section \<open>Photo clustering (services/CurationService)\<close>

text \<open>
  \<^verbatim>\<open>PhotoAnalysis\<close> and \<^verbatim>\<open>PhotoMetadata\<close> share seven fields; they are two extensions
  of one record, so that \<open>timestamp\<close> and \<open>location\<close> read both.
\<close>

record PhotoFields =
  nativeId :: string
  timestamp :: int
  location :: "GeoPoint option"
  isJunk :: bool
  qualityScore :: real
  width :: real
  height :: real

record PhotoAnalysis = PhotoFields +
  junkScore :: real

record PhotoMetadata = PhotoFields +
  fileName :: "string option"

record PhotoCluster =
  id' :: string
  tripId :: string
  photos :: "PhotoMetadata list"
  centerLocation :: GeoPoint
  startTime :: int
  endTime :: int
  assignedStepId :: "string option"

text \<open>
  Reading a property of \<^verbatim>\<open>undefined\<close> throws a \<^verbatim>\<open>TypeError\<close>: this is what
  \<^verbatim>\<open>photos[0].timestamp\<close> does on an empty array.
\<close>

datatype js_error = TypeError

text \<open>The object literal that \<^verbatim>\<open>photos.map\<close> builds in \<^verbatim>\<open>finalizeCluster\<close>.\<close>

definition toMetadata :: "PhotoAnalysis \<Rightarrow> PhotoMetadata" where
  "toMetadata p =
     \<lparr>nativeId = nativeId p, timestamp = timestamp p, location = location p,
      isJunk = isJunk p, qualityScore = qualityScore p, width = width p,
      height = height p, fileName = None\<rparr>"

text \<open>
  \<open>newId\<close> is the value \<^verbatim>\<open>generateUUID()\<close> returns. \<^verbatim>\<open>p.location!\<close> is read only from
  photos that passed the filter.
\<close>

definition finalizeCluster :: "string \<Rightarrow> PhotoAnalysis list \<Rightarrow> string \<Rightarrow> js_error + PhotoCluster" where
  "finalizeCluster newId ps tid =
     (case ps of
        [] \<Rightarrow> Inl TypeError
      | first # _ \<Rightarrow>
          let startTime = timestamp first;
              endTime = timestamp (last ps);
              photosWithLocation = filter (\<lambda>p. location p \<noteq> None) ps;
              centerLocation =
                (if length photosWithLocation > 0 then
                   let avgLat =
                         foldl (\<lambda>sum p. sum + latitude (the (location p))) 0 photosWithLocation /
                         real (length photosWithLocation);
                       avgLng =
                         foldl (\<lambda>sum p. sum + longitude (the (location p))) 0 photosWithLocation /
                         real (length photosWithLocation)
                   in \<lparr>latitude = avgLat, longitude = avgLng\<rparr>
                 else \<lparr>latitude = 0, longitude = 0\<rparr>);
              metadata = map toMetadata ps
          in Inr \<lparr>id' = newId, tripId = tid, photos = metadata,
                  centerLocation = centerLocation, startTime = startTime,
                  endTime = endTime, assignedStepId = None\<rparr>)"

text \<open>The two tests of the loop body of \<^verbatim>\<open>clusterPhotos\<close>.\<close>

definition withinTimeWindow :: "PhotoAnalysis \<Rightarrow> PhotoAnalysis \<Rightarrow> bool" where
  "withinTimeWindow photo lastPhoto =
     (let timeDiff = timestamp photo - timestamp lastPhoto
      in timeDiff \<le> TIME_CLUSTER_WINDOW)"

text \<open>The comparison \<^verbatim>\<open>distance <= LOCATION_CLUSTER_RADIUS\<close> is false of a NaN.\<close>

definition withinLocationRadius :: "Rounding \<Rightarrow> PhotoAnalysis \<Rightarrow> PhotoAnalysis \<Rightarrow> bool" where
  "withinLocationRadius err photo lastPhoto =
     (case (location photo, location lastPhoto) of
        (Some l1, Some l2) \<Rightarrow>
          (case calculateDistance err l1 l2 of
             None \<Rightarrow> False
           | Some distance \<Rightarrow> distance \<le> LOCATION_CLUSTER_RADIUS)
      | _ \<Rightarrow> True)"

text \<open>
  The loop of \<^verbatim>\<open>clusterPhotos\<close> over \<^verbatim>\<open>sorted[1..]\<close>, with its two variables
  \<^verbatim>\<open>currentCluster\<close> and \<^verbatim>\<open>clusters\<close>, and the statements after the loop. \<open>uuids k\<close>
  is the value of call number \<open>k\<close> of \<^verbatim>\<open>generateUUID()\<close>; one call is made per
  cluster pushed. Reading \<^verbatim>\<open>lastPhoto.timestamp\<close> with an empty
  \<^verbatim>\<open>currentCluster\<close> throws.
\<close>

fun clusterLoop ::
  "Rounding \<Rightarrow> (nat \<Rightarrow> string) \<Rightarrow> string \<Rightarrow> PhotoAnalysis list \<Rightarrow> PhotoAnalysis list
     \<Rightarrow> PhotoCluster list \<Rightarrow> js_error + PhotoCluster list" where
  "clusterLoop err uuids tid [] currentCluster clusters =
     (if length currentCluster > 0 then
        (case finalizeCluster (uuids (length clusters)) currentCluster tid of
           Inl e \<Rightarrow> Inl e
         | Inr c \<Rightarrow> Inr (clusters @ [c]))
      else Inr clusters)"
| "clusterLoop err uuids tid (photo # rest) currentCluster clusters =
     (case currentCluster of
        [] \<Rightarrow> Inl TypeError
      | _ # _ \<Rightarrow>
          let lastPhoto = last currentCluster
          in if withinTimeWindow photo lastPhoto \<and> withinLocationRadius err photo lastPhoto
             then clusterLoop err uuids tid rest (currentCluster @ [photo]) clusters
             else if length currentCluster > 0 then
               (case finalizeCluster (uuids (length clusters)) currentCluster tid of
                  Inl e \<Rightarrow> Inl e
                | Inr c \<Rightarrow> clusterLoop err uuids tid rest [photo] (clusters @ [c]))
             else clusterLoop err uuids tid rest [photo] clusters)"

text \<open>
  \<^verbatim>\<open>clusterPhotos(photos, trip)\<close>; of \<^verbatim>\<open>trip\<close> only \<^verbatim>\<open>trip.id\<close> is read, here
  \<open>tid\<close>. The sort with the comparator \<^verbatim>\<open>a.timestamp - b.timestamp\<close> is a stable sort
  by timestamp.
\<close>

definition clusterPhotos ::
  "Rounding \<Rightarrow> (nat \<Rightarrow> string) \<Rightarrow> PhotoAnalysis list \<Rightarrow> string
     \<Rightarrow> js_error + PhotoCluster list" where
  "clusterPhotos err uuids ps tid =
     (if length ps = 0 then Inr []
      else
        (case sort_key timestamp ps of
           [] \<Rightarrow> Inl TypeError
         | first # rest \<Rightarrow> clusterLoop err uuids tid rest [first] []))"

text \<open>
  The runs of photos that the loop of \<^verbatim>\<open>clusterPhotos\<close> collects in
  \<^verbatim>\<open>currentCluster\<close>, in the order in which it pushes them: \<open>clusterLoop\<close> without
  \<open>finalizeCluster\<close>. The properties of \<open>clusterPhotos\<close> are proved through them.
\<close>

fun runsLoop ::
  "Rounding \<Rightarrow> PhotoAnalysis list \<Rightarrow> PhotoAnalysis list \<Rightarrow> PhotoAnalysis list list" where
  "runsLoop err [] currentCluster = [currentCluster]"
| "runsLoop err (photo # rest) currentCluster =
     (if withinTimeWindow photo (last currentCluster) \<and>
         withinLocationRadius err photo (last currentCluster)
      then runsLoop err rest (currentCluster @ [photo])
      else currentCluster # runsLoop err rest [photo])"

definition photoRuns :: "Rounding \<Rightarrow> PhotoAnalysis list \<Rightarrow> PhotoAnalysis list list" where
  "photoRuns err ps =
     (case sort_key timestamp ps of
        [] \<Rightarrow> []
      | first # rest \<Rightarrow> runsLoop err rest [first])"

text \<open>
  The metadata record \<open>m\<close> is the copy of the analysed photo \<open>p\<close>: the seven fields that
  \<^verbatim>\<open>finalizeCluster\<close> copies agree, and there is no file name.
\<close>

definition same_photo :: "PhotoMetadata \<Rightarrow> PhotoAnalysis \<Rightarrow> bool" where
  "same_photo m p =
     (nativeId m = nativeId p \<and> timestamp m = timestamp p \<and> location m = location p \<and>
      isJunk m = isJunk p \<and> qualityScore m = qualityScore p \<and> width m = width p \<and>
      height m = height p \<and> fileName m = None)"

text \<open>A photo for the examples: taken at \<open>t\<close> milliseconds, with or without a location.\<close>

definition photo_at :: "string \<Rightarrow> int \<Rightarrow> GeoPoint option \<Rightarrow> PhotoAnalysis" where
  "photo_at n t l =
     \<lparr>nativeId = n, timestamp = t, location = l, isJunk = False, qualityScore = 0.85,
      width = 1920, height = 1080, junkScore = 0.1\<rparr>"

text \<open>
  Photos for the examples: four photos without a location, taken at minutes 0, 30, 65
  and 200; three photos with a location, taken ten minutes apart, the first two at
  the same place and the third half a turn around the equator; and three photos taken
  ten minutes apart of which the first and the third have a location.
\<close>

definition p0 :: PhotoAnalysis where "p0 = photo_at ''p0'' 0 None"
definition p30 :: PhotoAnalysis where "p30 = photo_at ''p30'' 1800000 None"
definition p65 :: PhotoAnalysis where "p65 = photo_at ''p65'' 3900000 None"
definition p200 :: PhotoAnalysis where "p200 = photo_at ''p200'' 12000000 None"

definition q0 :: PhotoAnalysis where
  "q0 = photo_at ''q0'' 0 (Some \<lparr>latitude = 0, longitude = 0\<rparr>)"
definition q10 :: PhotoAnalysis where
  "q10 = photo_at ''q10'' 600000 (Some \<lparr>latitude = 0, longitude = 0\<rparr>)"
definition q20 :: PhotoAnalysis where
  "q20 = photo_at ''q20'' 1200000 (Some \<lparr>latitude = 0, longitude = 180\<rparr>)"

definition r0 :: PhotoAnalysis where
  "r0 = photo_at ''r0'' 0 (Some \<lparr>latitude = 10, longitude = 20\<rparr>)"
definition r10 :: PhotoAnalysis where "r10 = photo_at ''r10'' 600000 None"
definition r20 :: PhotoAnalysis where
  "r20 = photo_at ''r20'' 1200000 (Some \<lparr>latitude = 30, longitude = 40\<rparr>)"

definition example_uuids :: "nat \<Rightarrow> string" where
  "example_uuids k = replicate (Suc k) CHR ''c''"

section \<open>Properties of the geolocation helpers\<close>

lemma haversine_a_bounds: "0 \<le> haversine_a p q \<and> haversine_a p q \<le> 1"
proof -
  define f1 where "f1 = latitude p * pi / 180"
  define f2 where "f2 = latitude q * pi / 180"
  define dl where "dl = (longitude q - longitude p) * pi / 180"
  define h where "h = sin (dl / 2) * sin (dl / 2)"
  define c where "c = cos f1 * cos f2"
  define s where "s = sin f1 * sin f2"
  have dphi: "(latitude q - latitude p) * pi / 180 = f2 - f1"
    by (simp add: f1_def f2_def algebra_simps diff_divide_distrib)
  have a_eq: "haversine_a p q = sin ((f2 - f1) / 2) * sin ((f2 - f1) / 2) + c * h"
    unfolding haversine_a_def Let_def dphi
    by (simp add: f1_def f2_def dl_def h_def c_def algebra_simps)
  have half: "sin ((f2 - f1) / 2) * sin ((f2 - f1) / 2) = (1 - cos (f2 - f1)) / 2"
  proof -
    have eq: "2 * ((f2 - f1) / 2) = f2 - f1" by simp
    have "cos (f2 - f1) = 1 - 2 * (sin ((f2 - f1) / 2))\<^sup>2"
      using cos_double_sin [of "(f2 - f1) / 2"] unfolding eq .
    then show ?thesis by (simp add: power2_eq_square)
  qed
  have cd: "cos (f2 - f1) = c + s"
    by (simp add: cos_diff c_def s_def algebra_simps)
  have cs: "cos (f2 + f1) = c - s"
    by (simp add: cos_add c_def s_def algebra_simps)
  have h0: "0 \<le> h" by (simp add: h_def)
  have h1: "h \<le> 1"
  proof -
    have "h = (sin (dl / 2))\<^sup>2" by (simp add: h_def power2_eq_square)
    also have "\<dots> \<le> 1" using abs_sin_le_one [of "dl / 2"] by (simp add: abs_square_le_1)
    finally show ?thesis .
  qed
  have e0: "(1 - (c + s)) / 2 \<ge> 0" "(1 - (c + s)) / 2 \<le> 1"
    using cos_le_one [of "f2 - f1"] cos_ge_minus_one [of "f2 - f1"] cd by simp_all
  have e1: "(1 + (c - s)) / 2 \<ge> 0" "(1 + (c - s)) / 2 \<le> 1"
    using cos_le_one [of "f2 + f1"] cos_ge_minus_one [of "f2 + f1"] cs by simp_all
  have lin: "haversine_a p q = (1 - h) * ((1 - (c + s)) / 2) + h * ((1 + (c - s)) / 2)"
    unfolding a_eq half cd by (simp add: field_simps)
  have lo: "0 \<le> (1 - h) * ((1 - (c + s)) / 2) + h * ((1 + (c - s)) / 2)"
    using h0 h1 e0 e1 by (intro add_nonneg_nonneg mult_nonneg_nonneg) simp_all
  have "(1 - h) * ((1 - (c + s)) / 2) \<le> (1 - h) * 1"
    using h1 e0 by (intro mult_left_mono) simp_all
  moreover have "h * ((1 + (c - s)) / 2) \<le> h * 1"
    using h0 e1 by (intro mult_left_mono) simp_all
  ultimately have hi: "(1 - h) * ((1 - (c + s)) / 2) + h * ((1 + (c - s)) / 2) \<le> 1"
    by simp
  show ?thesis using lo hi lin by simp
qed

lemma atan2_nonneg: "0 \<le> y \<Longrightarrow> 0 \<le> atan2 y x"
proof -
  assume y: "0 \<le> y"
  have lb: "- (pi / 2) < arctan (y / x)" by (rule arctan_lbound)
  show ?thesis
  proof (cases "0 < x")
    case True
    with y show ?thesis by (simp add: atan2_def zero_le_divide_iff)
  next
    case False
    note nx = this
    show ?thesis
    proof (cases "x < 0")
      case True
      have "0 \<le> arctan (y / x) + pi" using lb pi_gt_zero by linarith
      with y nx True show ?thesis by (simp add: atan2_def)
    next
      case False
      with y nx show ?thesis by (simp add: atan2_def)
    qed
  qed
qed

text \<open>
  The distance is NaN exactly when the term \<^verbatim>\<open>a\<close>, as computed, is outside
  \<open>[0, 1]\<close>; without rounding error it never is. A distance that is a number is not
  negative.
\<close>

lemma calculateDistance_NaN:
  "calculateDistance err p q = None \<longleftrightarrow>
     haversine_a p q + err p q < 0 \<or> 1 < haversine_a p q + err p q"
  by (auto simp: calculateDistance_def Math_sqrt_def Let_def)

lemma calculateDistance_exact: "\<exists>d. calculateDistance exact p q = Some d"
proof -
  have "calculateDistance exact p q \<noteq> None"
    using haversine_a_bounds [of p q] by (simp add: calculateDistance_NaN exact_def)
  then show ?thesis by blast
qed

lemma calculateDistance_nonneg: "calculateDistance err p q = Some d \<Longrightarrow> 0 \<le> d"
proof -
  assume d: "calculateDistance err p q = Some d"
  let ?a = "haversine_a p q + err p q"
  from d have "calculateDistance err p q \<noteq> None" by simp
  then have a: "0 \<le> ?a" "?a \<le> 1" by (simp_all add: calculateDistance_NaN)
  then have "d = 6371000 * (2 * atan2 (sqrt ?a) (sqrt (1 - ?a)))"
    using d by (simp add: calculateDistance_def Math_sqrt_def Let_def)
  moreover have "0 \<le> atan2 (sqrt ?a) (sqrt (1 - ?a))"
    using a by (intro atan2_nonneg) simp
  ultimately show ?thesis by simp
qed

lemma calculateDistance_same: "calculateDistance exact p p = Some 0"
  by (simp add: calculateDistance_def Math_sqrt_def exact_def haversine_a_def atan2_def)

lemma calculateDistance_half_turn:
  "calculateDistance exact \<lparr>latitude = 0, longitude = 0\<rparr> \<lparr>latitude = 0, longitude = 180\<rparr>
     = Some (6371000 * pi)"
  by (simp add: calculateDistance_def Math_sqrt_def exact_def haversine_a_def atan2_def)

lemma calculateDistance_half_turn_back:
  "calculateDistance exact \<lparr>latitude = 0, longitude = 180\<rparr> \<lparr>latitude = 0, longitude = 0\<rparr>
     = Some (6371000 * pi)"
  by (simp add: calculateDistance_def Math_sqrt_def exact_def haversine_a_def atan2_def)

text \<open>
  A pair of valid points half a turn apart at which the exact term is 1, so that any
  rounding upwards makes the distance NaN; evaluated in IEEE doubles the term is
  \<open>1 + 2 ^ -52\<close> there, the error that \<open>one_ulp\<close> stands for.
\<close>

lemma haversine_a_opposite:
  "haversine_a \<lparr>latitude = 8, longitude = - 180\<rparr> \<lparr>latitude = - 8, longitude = 0\<rparr> = 1"
proof -
  have "sin (- (8 * pi / 180)) * sin (- (8 * pi / 180)) +
      cos (8 * pi / 180) * cos (- (8 * pi / 180)) * sin (pi / 2) * sin (pi / 2) = 1"
    using sin_cos_squared_add [of "8 * pi / 180"] by (simp add: power2_eq_square)
  moreover have "(- 8 - 8) * pi / 180 / 2 = - (8 * pi / 180)" by simp
  moreover have "(0 - - 180) * pi / 180 / 2 = pi / 2" by simp
  ultimately show ?thesis
    unfolding haversine_a_def Let_def by (simp del: sin_minus cos_minus)
qed

lemma calculateDistance_opposite_NaN:
  "calculateDistance one_ulp \<lparr>latitude = 8, longitude = - 180\<rparr> \<lparr>latitude = - 8, longitude = 0\<rparr>
     = None"
  by (simp add: calculateDistance_NaN haversine_a_opposite one_ulp_def)

section \<open>Activity classification\<close>

text \<open>
  Claim C5. For every non-negative speed \<open>s\<close>, \<open>inferActivityFromSpeed s\<close> is Stationary
  when \<open>s < 1\<close>, Walking when \<open>1 \<le> s < 2\<close>, Driving when \<open>2 \<le> s < 20\<close>, Train when
  \<open>20 \<le> s < 55\<close> and Flying when \<open>55 \<le> s\<close>: the bands do not overlap, each contains
  its lower edge, and the result depends on the speed alone.
\<close>


theorem inferActivityFromSpeed_bands:
  "0 \<le> s \<Longrightarrow>
     (s < 1 \<longrightarrow> inferActivityFromSpeed s = Stationary) \<and>
     (1 \<le> s \<and> s < 2 \<longrightarrow> inferActivityFromSpeed s = Walking) \<and>
     (2 \<le> s \<and> s < 20 \<longrightarrow> inferActivityFromSpeed s = Driving) \<and>
     (20 \<le> s \<and> s < 55 \<longrightarrow> inferActivityFromSpeed s = Train) \<and>
     (55 \<le> s \<longrightarrow> inferActivityFromSpeed s = Flying)"
  by (simp add: inferActivityFromSpeed_def)

theorem inferActivityFromSpeed_bands_witness:
  "inferActivityFromSpeed 0 = Stationary \<and> inferActivityFromSpeed 0.99 = Stationary \<and>
   inferActivityFromSpeed 1 = Walking \<and> inferActivityFromSpeed 1.99 = Walking \<and>
   inferActivityFromSpeed 2 = Driving \<and> inferActivityFromSpeed 19.99 = Driving \<and>
   inferActivityFromSpeed 20 = Train \<and> inferActivityFromSpeed 54.99 = Train \<and>
   inferActivityFromSpeed 55 = Flying \<and> inferActivityFromSpeed 300 = Flying"
  using inferActivityFromSpeed_bands [of 0] inferActivityFromSpeed_bands [of "0.99"]
    inferActivityFromSpeed_bands [of 1] inferActivityFromSpeed_bands [of "1.99"]
    inferActivityFromSpeed_bands [of 2] inferActivityFromSpeed_bands [of "19.99"]
    inferActivityFromSpeed_bands [of 20] inferActivityFromSpeed_bands [of "54.99"]
    inferActivityFromSpeed_bands [of 55] inferActivityFromSpeed_bands [of 300]
  by simp

section \<open>Speed\<close>

text \<open>
  Claim C9. For all points \<open>a\<close>, \<open>b\<close> and times \<open>tA\<close>, \<open>tB\<close> (milliseconds), and whatever
  the rounding: when \<open>tA < tB\<close>, \<open>calculateSpeed\<close> is the distance divided by the elapsed
  seconds, the divisor being positive, and is NaN when the distance is; when \<open>tB \<le> tA\<close>
  it is 0. It is never a negative number.
\<close>

theorem calculateSpeed_quotient_or_zero:
  "(tA < tB \<longrightarrow>
      0 < real_of_int (tB - tA) / 1000 \<and>
      calculateSpeed err a b tA tB =
        map_option (\<lambda>d. d / (real_of_int (tB - tA) / 1000)) (calculateDistance err a b)) \<and>
   (tB \<le> tA \<longrightarrow> calculateSpeed err a b tA tB = Some 0) \<and>
   (\<forall>v. calculateSpeed err a b tA tB = Some v \<longrightarrow> 0 \<le> v)"
proof (intro conjI impI allI)
  assume "tA < tB"
  then show "0 < real_of_int (tB - tA) / 1000" by simp
next
  assume "tA < tB"
  then show "calculateSpeed err a b tA tB =
      map_option (\<lambda>d. d / (real_of_int (tB - tA) / 1000)) (calculateDistance err a b)"
    by (simp add: calculateSpeed_def Let_def)
next
  assume "tB \<le> tA"
  then show "calculateSpeed err a b tA tB = Some 0"
    by (simp add: calculateSpeed_def Let_def)
next
  fix v assume v: "calculateSpeed err a b tA tB = Some v"
  show "0 \<le> v"
  proof (cases "tA < tB")
    case True
    with v obtain d where d: "calculateDistance err a b = Some d"
      and "v = d / (real_of_int (tB - tA) / 1000)"
      by (auto simp: calculateSpeed_def Let_def)
    with calculateDistance_nonneg [OF d] True show ?thesis by simp
  next
    case False
    with v show ?thesis by (simp add: calculateSpeed_def Let_def)
  qed
qed

theorem calculateSpeed_quotient_or_zero_witness:
  "calculateSpeed exact \<lparr>latitude = 0, longitude = 0\<rparr> \<lparr>latitude = 0, longitude = 180\<rparr> 0 2000
     = Some (6371000 * pi / 2) \<and>
   calculateSpeed exact \<lparr>latitude = 0, longitude = 0\<rparr> \<lparr>latitude = 0, longitude = 180\<rparr> 2000 2000
     = Some 0 \<and>
   calculateSpeed exact \<lparr>latitude = 0, longitude = 0\<rparr> \<lparr>latitude = 0, longitude = 180\<rparr> 2000 0
     = Some 0 \<and>
   calculateSpeed one_ulp \<lparr>latitude = 8, longitude = - 180\<rparr> \<lparr>latitude = - 8, longitude = 0\<rparr> 0 2000
     = None \<and>
   calculateSpeed one_ulp \<lparr>latitude = 8, longitude = - 180\<rparr> \<lparr>latitude = - 8, longitude = 0\<rparr> 2000 0
     = Some 0 \<and>
   0 \<le> 6371000 * pi / 2"
proof -
  note T = calculateSpeed_quotient_or_zero
  have 1: "calculateSpeed exact \<lparr>latitude = 0, longitude = 0\<rparr> \<lparr>latitude = 0, longitude = 180\<rparr> 0 2000
     = Some (6371000 * pi / 2)"
    using T [of 0 2000 exact "\<lparr>latitude = 0, longitude = 0\<rparr>" "\<lparr>latitude = 0, longitude = 180\<rparr>"]
    by (simp add: calculateDistance_half_turn)
  have 2: "calculateSpeed exact \<lparr>latitude = 0, longitude = 0\<rparr> \<lparr>latitude = 0, longitude = 180\<rparr> 2000 2000
     = Some 0"
    using T [of 2000 2000 exact "\<lparr>latitude = 0, longitude = 0\<rparr>" "\<lparr>latitude = 0, longitude = 180\<rparr>"]
    by simp
  have 3: "calculateSpeed exact \<lparr>latitude = 0, longitude = 0\<rparr> \<lparr>latitude = 0, longitude = 180\<rparr> 2000 0
     = Some 0"
    using T [of 2000 0 exact "\<lparr>latitude = 0, longitude = 0\<rparr>" "\<lparr>latitude = 0, longitude = 180\<rparr>"]
    by simp
  have 4: "calculateSpeed one_ulp \<lparr>latitude = 8, longitude = - 180\<rparr> \<lparr>latitude = - 8, longitude = 0\<rparr> 0 2000
     = None"
    using T [of 0 2000 one_ulp "\<lparr>latitude = 8, longitude = - 180\<rparr>" "\<lparr>latitude = - 8, longitude = 0\<rparr>"]
    by (simp add: calculateDistance_opposite_NaN)
  have 5: "calculateSpeed one_ulp \<lparr>latitude = 8, longitude = - 180\<rparr> \<lparr>latitude = - 8, longitude = 0\<rparr> 2000 0
     = Some 0"
    using T [of 2000 0 one_ulp "\<lparr>latitude = 8, longitude = - 180\<rparr>" "\<lparr>latitude = - 8, longitude = 0\<rparr>"]
    by simp
  have 6: "0 \<le> 6371000 * pi / 2"
    using 1 T [of 0 2000 exact "\<lparr>latitude = 0, longitude = 0\<rparr>" "\<lparr>latitude = 0, longitude = 180\<rparr>"]
    by blast
  from 1 2 3 4 5 6 show ?thesis by blast
qed

section \<open>The sampling interval\<close>


text \<open>A capture changes neither timer: the period set at start or resume stays.\<close>

lemma captureLocation_keeps_timers:
  "trackingInterval (service (captureLocation env err newId w)) = trackingInterval (service w) \<and>
   syncInterval (service (captureLocation env err newId w)) = syncInterval (service w) \<and>
   state (service (captureLocation env err newId w)) = state (service w)"
  by (simp add: captureLocation_def Let_def savePendingLocation_def
      split: option.splits sum.splits)








section \<open>Starting and stopping\<close>

text \<open>
  Claim C7. When the location-permission check reports false, \<open>startTracking\<close> fails with
  the permission error and leaves the world as it was; started from a Stopped service
  without a trip, the service is still Stopped and still has no trip.
\<close>

theorem startTracking_permission_denied:
  "\<not> checkLocationPermission env \<Longrightarrow>
   state (service w) = Stopped \<Longrightarrow> currentTripId (service w) = None \<Longrightarrow>
     fst (startTracking env tid w) = Inl LocationPermissionNotGranted \<and>
     snd (startTracking env tid w) = w \<and>
     state (service (snd (startTracking env tid w))) = Stopped \<and>
     currentTripId (service (snd (startTracking env tid w))) = None"
  by (simp add: startTracking_def)

theorem startTracking_permission_denied_witness:
  "startTracking \<lparr>locationPermission = False, deviceLocation = None\<rparr> ''trip-2'' stopped_world
     = (Inl LocationPermissionNotGranted, stopped_world) \<and>
   state (service stopped_world) = Stopped \<and>
   currentTripId (service stopped_world) = None"
  using startTracking_permission_denied
      [of "\<lparr>locationPermission = False, deviceLocation = None\<rparr>" stopped_world "''trip-2''"]
  by (simp add: checkLocationPermission_def stopped_world_def prod_eq_iff)

lemma startTracking_granted_example:
  "state (service (snd (startTracking \<lparr>locationPermission = True, deviceLocation = None\<rparr> ''trip-2'' stopped_world))) = Active \<and>
   currentTripId (service (snd (startTracking \<lparr>locationPermission = True, deviceLocation = None\<rparr> ''trip-2'' stopped_world))) = Some ''trip-2'' \<and>
   fst (startTracking \<lparr>locationPermission = True, deviceLocation = None\<rparr> ''trip-2'' stopped_world) = Inr ()"
  by (simp add: startTracking_def checkLocationPermission_def stopped_world_def startSyncLoop_def startTrackingLoop_def)







section \<open>Retry with backoff\<close>

declare retryLoop.simps [simp del]

lemma outcome_0: "outcome fn s 0 = fst (fn s)"
  by (simp add: outcome_def)

lemma outcome_Suc: "outcome fn s (Suc n) = outcome fn (snd (fn s)) n"
  by (simp add: outcome_def)

lemma retryLoop_success:
  "\<forall>j<k. isl (outcome fn s j) \<Longrightarrow> outcome fn s k = Inr v \<Longrightarrow> int (i + k) < m \<Longrightarrow>
     retryLoop fn m b i le ds s =
       (Inr v, ds @ map (\<lambda>j. b * 2 ^ j) [i..<i + k], after_calls fn s (Suc k))"
proof (induction k arbitrary: i le ds s)
  case 0
  then obtain s' where "fn s = (Inr v, s')"
    by (cases "fn s") (simp add: outcome_0)
  with 0 show ?case
    by (simp add: retryLoop.simps [of fn m b i])
next
  case (Suc k)
  from Suc.prems(1) have "isl (outcome fn s 0)" by blast
  then obtain e s' where fs: "fn s = (Inl e, s')"
    by (cases "fn s"; cases "fst (fn s)") (auto simp: outcome_0)
  have rest: "\<forall>j<k. isl (outcome fn s' j)"
  proof (intro allI impI)
    fix j assume "j < k"
    then have "isl (outcome fn s (Suc j))" using Suc.prems(1) by simp
    then show "isl (outcome fn s' j)" by (simp add: outcome_Suc fs)
  qed
  have ok: "outcome fn s' k = Inr v"
    using Suc.prems(2) by (simp add: outcome_Suc fs)
  have lt: "int (Suc i + k) < m" using Suc.prems(3) by simp
  have step: "retryLoop fn m b i le ds s =
      retryLoop fn m b (Suc i) (Some e) (ds @ [b * 2 ^ i]) s'"
    using Suc.prems(3) fs by (simp add: retryLoop.simps [of fn m b i])
  have upt: "[i..<i + Suc k] = i # [Suc i..<Suc i + k]"
    by (simp add: upt_conv_Cons)
  show ?case
    unfolding step Suc.IH [OF rest ok lt] upt
    by (simp add: fs)
qed

lemma retryLoop_exhausted:
  "\<forall>j<n. isl (outcome fn s j) \<Longrightarrow> int (i + n) = m \<Longrightarrow>
     retryLoop fn m b i le ds s =
       (Inl (if n = 0 then le else Some (projl (outcome fn s (n - 1)))),
        ds @ map (\<lambda>j. b * 2 ^ j) [i..<i + n - 1], after_calls fn s n)"
proof (induction n arbitrary: i le ds s)
  case 0
  then show ?case by (simp add: retryLoop.simps [of fn m b i])
next
  case (Suc n)
  from Suc.prems(1) have "isl (outcome fn s 0)" by blast
  then obtain e s' where fs: "fn s = (Inl e, s')"
    by (cases "fn s"; cases "fst (fn s)") (auto simp: outcome_0)
  have rest: "\<forall>j<n. isl (outcome fn s' j)"
  proof (intro allI impI)
    fix j assume "j < n"
    then have "isl (outcome fn s (Suc j))" using Suc.prems(1) by simp
    then show "isl (outcome fn s' j)" by (simp add: outcome_Suc fs)
  qed
  have eq: "int (Suc i + n) = m" using Suc.prems(2) by simp
  show ?case
  proof (cases n)
    case 0
    have step: "retryLoop fn m b i le ds s = retryLoop fn m b (Suc i) (Some e) ds s'"
      using Suc.prems(2) 0 fs by (simp add: retryLoop.simps [of fn m b i])
    show ?thesis
      unfolding step using 0 eq fs
      by (simp add: retryLoop.simps [of fn m b "Suc i"] outcome_0)
  next
    case (Suc n')
    have step: "retryLoop fn m b i le ds s =
        retryLoop fn m b (Suc i) (Some e) (ds @ [b * 2 ^ i]) s'"
      using Suc.prems(2) Suc fs by (simp add: retryLoop.simps [of fn m b i])
    have upt: "[i..<i + Suc n - 1] = i # [Suc i..<Suc i + n - 1]"
      using Suc by (simp add: upt_conv_Cons)
    have last: "outcome fn s (Suc n - 1) = outcome fn s' (n - 1)"
      using Suc by (simp add: outcome_Suc fs)
    show ?thesis
      unfolding step Suc.IH [OF rest eq] upt last
      using Suc by (simp add: fs)
  qed
qed

lemma retryLoop_bounded:
  "\<exists>n. int (i + n) \<le> max (int i) m \<and>
       snd (snd (retryLoop fn m b i le ds s)) = after_calls fn s n \<and>
       length (fst (snd (retryLoop fn m b i le ds s))) \<le> length ds + n"
proof (induction fn m b i le ds s rule: retryLoop.induct)
  case (1 fn m b i le ds s)
  show ?case
  proof (cases "int i < m")
    case False
    then have "retryLoop fn m b i le ds s = (Inl le, ds, s)"
      by (simp add: retryLoop.simps [of fn m b i])
    then show ?thesis by (intro exI [of _ 0]) simp
  next
    case True
    obtain r s' where fs: "fn s = (r, s')" by (cases "fn s")
    show ?thesis
    proof (cases r)
      case (Inr v)
      then have "retryLoop fn m b i le ds s = (Inr v, ds, s')"
        using True fs by (simp add: retryLoop.simps [of fn m b i])
      then show ?thesis using True fs by (intro exI [of _ 1]) simp
    next
      case (Inl e)
      let ?ds = "if int i < m - 1 then ds @ [b * 2 ^ i] else ds"
      have step: "retryLoop fn m b i le ds s = retryLoop fn m b (Suc i) (Some e) ?ds s'"
        using True fs Inl by (simp add: retryLoop.simps [of fn m b i])
      from "1.IH" [OF True fs [symmetric] Inl]
      obtain n where n: "int (Suc i + n) \<le> max (int (Suc i)) m"
        "snd (snd (retryLoop fn m b (Suc i) (Some e) ?ds s')) = after_calls fn s' n"
        "length (fst (snd (retryLoop fn m b (Suc i) (Some e) ?ds s'))) \<le> length ?ds + n"
        by blast
      show ?thesis
        unfolding step
        using n True fs by (intro exI [of _ "Suc n"]) (auto split: if_splits)
    qed
  qed
qed

text \<open>
  Claim C4, as amended. \<open>retryWithBackoff\<close> makes at most \<open>maxRetries\<close> attempts in all
  (3 by default), that is at most \<open>maxRetries - 1\<close> retries, and sleeps
  \<open>baseDelay * 2 ^ i\<close> (base 1000 ms by default, no jitter) after failed attempt \<open>i\<close>,
  counted from 0, when another attempt follows. An operation that fails \<open>k\<close> times and
  then succeeds, with \<open>k < maxRetries\<close>, returns its value after exactly the delays
  \<open>baseDelay * 2 ^ 0, \<dots>, baseDelay * 2 ^ (k - 1)\<close>; with the default arguments and two
  failures these are 1000 ms and 2000 ms. When all \<open>maxRetries\<close> attempts fail, the error
  of the last attempt is thrown, after \<open>maxRetries - 1\<close> delays. In every case the
  operation is called at most \<open>maxRetries\<close> times.
\<close>

theorem retryWithBackoff_attempts:
  "((\<forall>j<k. isl (outcome fn s j)) \<and> outcome fn s k = Inr v \<and> int k < maxRetries \<longrightarrow>
      retryWithBackoff fn maxRetries baseDelay s =
        (Inr v, map (\<lambda>j. baseDelay * 2 ^ j) [0..<k], after_calls fn s (Suc k))) \<and>
   (isl (outcome fn s 0) \<and> isl (outcome fn s 1) \<and> outcome fn s 2 = Inr v \<longrightarrow>
      retryWithBackoff_default fn s = (Inr v, [1000, 2000], after_calls fn s 3)) \<and>
   (0 < maxRetries \<and> (\<forall>j<nat maxRetries. isl (outcome fn s j)) \<and>
    outcome fn s (nat maxRetries - 1) = Inl e \<longrightarrow>
      retryWithBackoff fn maxRetries baseDelay s =
        (Inl (Some e), map (\<lambda>j. baseDelay * 2 ^ j) [0..<nat maxRetries - 1],
         after_calls fn s (nat maxRetries))) \<and>
   (\<exists>n. int n \<le> max 0 maxRetries \<and>
        snd (snd (retryWithBackoff fn maxRetries baseDelay s)) = after_calls fn s n \<and>
        length (fst (snd (retryWithBackoff fn maxRetries baseDelay s))) \<le> n)"
proof (intro conjI impI)
  assume "(\<forall>j<k. isl (outcome fn s j)) \<and> outcome fn s k = Inr v \<and> int k < maxRetries"
  then show "retryWithBackoff fn maxRetries baseDelay s =
      (Inr v, map (\<lambda>j. baseDelay * 2 ^ j) [0..<k], after_calls fn s (Suc k))"
    using retryLoop_success [of k fn s v 0 maxRetries baseDelay None "[]"]
    by (simp add: retryWithBackoff_def)
next
  assume a: "isl (outcome fn s 0) \<and> isl (outcome fn s 1) \<and> outcome fn s 2 = Inr v"
  then have "\<forall>j<2. isl (outcome fn s j)"
    by (auto simp: less_Suc_eq numeral_2_eq_2)
  with a have "retryLoop fn 3 1000 0 None [] s =
      (Inr v, [] @ map (\<lambda>j. 1000 * 2 ^ j) [0..<0 + 2], after_calls fn s (Suc 2))"
    by (intro retryLoop_success) simp_all
  moreover have "[0..<0 + 2] = [0, Suc 0]" by (simp add: upt_conv_Cons numeral_2_eq_2)
  ultimately show "retryWithBackoff_default fn s = (Inr v, [1000, 2000], after_calls fn s 3)"
    by (simp add: retryWithBackoff_default_def retryWithBackoff_def eval_nat_numeral)
next
  assume a: "0 < maxRetries \<and> (\<forall>j<nat maxRetries. isl (outcome fn s j)) \<and>
    outcome fn s (nat maxRetries - 1) = Inl e"
  then have "retryLoop fn maxRetries baseDelay 0 None [] s =
      (Inl (if nat maxRetries = 0 then None
            else Some (projl (outcome fn s (nat maxRetries - 1)))),
       [] @ map (\<lambda>j. baseDelay * 2 ^ j) [0..<0 + nat maxRetries - 1],
       after_calls fn s (nat maxRetries))"
    by (intro retryLoop_exhausted) simp_all
  with a show "retryWithBackoff fn maxRetries baseDelay s =
      (Inl (Some e), map (\<lambda>j. baseDelay * 2 ^ j) [0..<nat maxRetries - 1],
       after_calls fn s (nat maxRetries))"
    by (simp add: retryWithBackoff_def)
next
  show "\<exists>n. int n \<le> max 0 maxRetries \<and>
        snd (snd (retryWithBackoff fn maxRetries baseDelay s)) = after_calls fn s n \<and>
        length (fst (snd (retryWithBackoff fn maxRetries baseDelay s))) \<le> n"
    using retryLoop_bounded [of 0 maxRetries fn baseDelay None "[]" s]
    by (simp add: retryWithBackoff_def)
qed


lemma after_calls_fails_then_succeeds: "after_calls (fails_then_succeeds k) c n = c + n"
  by (induction n arbitrary: c) (simp_all add: fails_then_succeeds_def)

lemma outcome_fails_then_succeeds:
  "outcome (fails_then_succeeds k) 0 n = (if n < k then Inl n else Inr ''ok'')"
  by (simp add: outcome_def after_calls_fails_then_succeeds fails_then_succeeds_def)

theorem retryWithBackoff_attempts_witness:
  "retryWithBackoff_default (fails_then_succeeds 2) 0 = (Inr ''ok'', [1000, 2000], 3) \<and>
   retryWithBackoff (fails_then_succeeds 1) 3 1000 0 = (Inr ''ok'', [1000], 2) \<and>
   retryWithBackoff (fails_then_succeeds 5) 3 1000 0 = (Inl (Some 2), [1000, 2000], 3)"
proof -
  have "retryWithBackoff_default (fails_then_succeeds 2) 0 =
      (Inr ''ok'', [1000, 2000], after_calls (fails_then_succeeds 2) 0 3)"
    using retryWithBackoff_attempts
      [where fn = "fails_then_succeeds 2" and s = 0 and v = "''ok''"]
    by (simp add: outcome_fails_then_succeeds)
  moreover have "retryWithBackoff (fails_then_succeeds 1) 3 1000 0 =
      (Inr ''ok'', map (\<lambda>j. 1000 * 2 ^ j) [0..<1], after_calls (fails_then_succeeds 1) 0 (Suc 1))"
    using retryWithBackoff_attempts
      [where fn = "fails_then_succeeds 1" and s = 0 and v = "''ok''" and k = 1
         and maxRetries = 3 and baseDelay = 1000]
    by (simp add: outcome_fails_then_succeeds)
  moreover have "retryWithBackoff (fails_then_succeeds 5) 3 1000 0 =
      (Inl (Some 2), map (\<lambda>j. 1000 * 2 ^ j) [0..<nat 3 - 1],
       after_calls (fails_then_succeeds 5) 0 (nat 3))"
    using retryWithBackoff_attempts
      [where fn = "fails_then_succeeds 5" and s = 0 and e = 2
         and maxRetries = 3 and baseDelay = 1000]
    by (simp add: outcome_fails_then_succeeds)
  moreover have "[0..<nat 3 - 1] = [0, Suc 0]" "[0..<1] = [0::nat]"
    by (simp_all add: upt_conv_Cons eval_nat_numeral)
  ultimately show ?thesis
    by (simp add: after_calls_fails_then_succeeds fails_then_succeeds_def)
qed

text \<open>
  The claim as stated fails on an operation that fails three times and would succeed
  the fourth time, under the default arguments: three retries would reach the fourth
  call after delays of 1000, 2000 and 4000 ms, and \<open>retryWithBackoff\<close> throws the third
  error after two retries.
\<close>

theorem retryWithBackoff_third_retry_counterexample:
  "retryWithBackoff_default (fails_then_succeeds 3) 0 = (Inl (Some 2), [1000, 2000], 3) \<and>
   spec_execute (fails_then_succeeds 3) 3 1000 0 = (Inr ''ok'', [1000, 2000, 4000], 4) \<and>
   retryWithBackoff_default (fails_then_succeeds 3) 0 \<noteq>
     spec_execute (fails_then_succeeds 3) 3 1000 0"
  by (simp add: retryWithBackoff_default_def retryWithBackoff_def retryLoop.simps
      spec_execute_def fails_then_succeeds_def eval_nat_numeral)

section \<open>Photo clustering\<close>

subsection \<open>One cluster\<close>

lemma location_toMetadata: "location (toMetadata p) = location p"
  by (simp add: toMetadata_def)

lemma timestamp_toMetadata: "timestamp (toMetadata p) = timestamp p"
  by (simp add: toMetadata_def)

lemma map_filter_location_toMetadata:
  "List.map_filter location (map toMetadata ps) = List.map_filter location ps"
  by (induction ps) (simp_all add: List.map_filter_simps location_toMetadata split: option.split)

lemma foldl_located:
  "foldl (\<lambda>sum p. sum + f (the (location p))) a (filter (\<lambda>p. location p \<noteq> None) ps) =
     a + sum_list (map f (List.map_filter location ps))"
  for a :: real
  by (induction ps arbitrary: a) (auto simp: List.map_filter_simps split: option.split)

lemma length_map_filter_location:
  "length (filter (\<lambda>p. location p \<noteq> None) ps) = length (List.map_filter location ps)"
  by (induction ps) (auto simp: List.map_filter_simps)

lemma finalizeCluster_Inr:
  assumes "finalizeCluster u g tid = Inr c"
  shows "g \<noteq> []"
    and "PhotoCluster.id' c = u"
    and "PhotoCluster.tripId c = tid"
    and "photos c = map toMetadata g"
    and "startTime c = timestamp (hd g)"
    and "endTime c = timestamp (last g)"
    and "assignedStepId c = None"
    and "List.map_filter location g = [] \<Longrightarrow> centerLocation c = \<lparr>latitude = 0, longitude = 0\<rparr>"
    and "List.map_filter location g \<noteq> [] \<Longrightarrow>
          centerLocation c =
            \<lparr>latitude = sum_list (map latitude (List.map_filter location g)) /
                 real (length (List.map_filter location g)),
             longitude = sum_list (map longitude (List.map_filter location g)) /
                 real (length (List.map_filter location g))\<rparr>"
proof -
  from assms obtain x xs where g: "g = x # xs"
    by (cases g) (simp_all add: finalizeCluster_def)
  show "g \<noteq> []" by (simp add: g)
  from assms show "PhotoCluster.id' c = u" "PhotoCluster.tripId c = tid" "photos c = map toMetadata g"
    "startTime c = timestamp (hd g)" "endTime c = timestamp (last g)" "assignedStepId c = None"
    unfolding g by (auto simp: finalizeCluster_def Let_def)
  have len: "length (filter (\<lambda>p. location p \<noteq> None) g) = length (List.map_filter location g)"
    by (rule length_map_filter_location)
  have lat: "foldl (\<lambda>sum p. sum + latitude (the (location p))) 0 (filter (\<lambda>p. location p \<noteq> None) g)
      = sum_list (map latitude (List.map_filter location g))"
    by (simp only: foldl_located)
  have lng: "foldl (\<lambda>sum p. sum + longitude (the (location p))) 0 (filter (\<lambda>p. location p \<noteq> None) g)
      = sum_list (map longitude (List.map_filter location g))"
    by (simp only: foldl_located)
  have center: "centerLocation c =
      (if 0 < length (List.map_filter location g) then
         \<lparr>latitude = sum_list (map latitude (List.map_filter location g)) /
              real (length (List.map_filter location g)),
          longitude = sum_list (map longitude (List.map_filter location g)) /
              real (length (List.map_filter location g))\<rparr>
       else \<lparr>latitude = 0, longitude = 0\<rparr>)"
    using assms lat lng len unfolding g
    by (auto simp: finalizeCluster_def Let_def)
  show "List.map_filter location g = [] \<Longrightarrow> centerLocation c = \<lparr>latitude = 0, longitude = 0\<rparr>"
    using center by simp
  show "List.map_filter location g \<noteq> [] \<Longrightarrow>
          centerLocation c =
            \<lparr>latitude = sum_list (map latitude (List.map_filter location g)) /
                 real (length (List.map_filter location g)),
             longitude = sum_list (map longitude (List.map_filter location g)) /
                 real (length (List.map_filter location g))\<rparr>"
    using center by simp
qed

lemma finalizeCluster_nonempty: "g \<noteq> [] \<Longrightarrow> \<exists>c. finalizeCluster u g tid = Inr c"
  by (cases g) (simp_all add: finalizeCluster_def Let_def)

subsection \<open>The loop\<close>

lemma clusterLoop_join:
  "cur \<noteq> [] \<Longrightarrow>
   withinTimeWindow photo (last cur) \<and> withinLocationRadius err photo (last cur) \<Longrightarrow>
     clusterLoop err uuids tid (photo # rest) cur clusters =
       clusterLoop err uuids tid rest (cur @ [photo]) clusters"
  by (cases cur) (simp_all add: Let_def)

lemma clusterLoop_split:
  "\<not> (withinTimeWindow photo (last cur) \<and> withinLocationRadius err photo (last cur)) \<Longrightarrow>
   finalizeCluster (uuids (length clusters)) cur tid = Inr c \<Longrightarrow>
     clusterLoop err uuids tid (photo # rest) cur clusters =
       clusterLoop err uuids tid rest [photo] (clusters @ [c])"
  by (cases cur) (auto simp: Let_def finalizeCluster_def)

lemma runsLoop_join:
  "withinTimeWindow photo (last cur) \<and> withinLocationRadius err photo (last cur) \<Longrightarrow>
     runsLoop err (photo # rest) cur = runsLoop err rest (cur @ [photo])"
  by simp

lemma runsLoop_split:
  "\<not> (withinTimeWindow photo (last cur) \<and> withinLocationRadius err photo (last cur)) \<Longrightarrow>
     runsLoop err (photo # rest) cur = cur # runsLoop err rest [photo]"
  by auto

lemma clusterLoop_runs:
  "cur \<noteq> [] \<Longrightarrow>
     \<exists>cs. clusterLoop err uuids tid rest cur clusters = Inr (clusters @ cs) \<and>
          map (\<lambda>(k, g). finalizeCluster (uuids k) g tid)
            (enumerate (length clusters) (runsLoop err rest cur)) = map Inr cs"
proof (induction rest arbitrary: cur clusters)
  case Nil
  from finalizeCluster_nonempty [OF Nil] obtain c
    where "finalizeCluster (uuids (length clusters)) cur tid = Inr c" by blast
  with Nil show ?case by (intro exI [of _ "[c]"]) simp
next
  case (Cons photo rest)
  show ?case
  proof (cases "withinTimeWindow photo (last cur) \<and> withinLocationRadius err photo (last cur)")
    case True
    have "cur @ [photo] \<noteq> []" by simp
    from Cons.IH [OF this, of clusters] show ?thesis
      unfolding clusterLoop_join [OF Cons.prems True] runsLoop_join [OF True] .
  next
    case False
    from finalizeCluster_nonempty [OF Cons.prems] obtain c
      where c: "finalizeCluster (uuids (length clusters)) cur tid = Inr c" by blast
    have "[photo] \<noteq> []" by simp
    from Cons.IH [OF this, of "clusters @ [c]"] obtain cs
      where cs: "clusterLoop err uuids tid rest [photo] (clusters @ [c]) = Inr ((clusters @ [c]) @ cs)"
        "map (\<lambda>(k, g). finalizeCluster (uuids k) g tid)
           (enumerate (length (clusters @ [c])) (runsLoop err rest [photo])) = map Inr cs"
      by blast
    have "clusterLoop err uuids tid (photo # rest) cur clusters = Inr (clusters @ (c # cs))"
      unfolding clusterLoop_split [where uuids = uuids and clusters = clusters, OF False c] cs(1)
      by simp
    moreover have "map (\<lambda>(k, g). finalizeCluster (uuids k) g tid)
        (enumerate (length clusters) (runsLoop err (photo # rest) cur)) = map Inr (c # cs)"
      unfolding runsLoop_split [OF False] using c cs(2) by simp
    ultimately show ?thesis by blast
  qed
qed

lemma concat_runsLoop: "concat (runsLoop err rest cur) = cur @ rest"
  by (induction rest arbitrary: cur) simp_all

lemma runsLoop_nonempty: "cur \<noteq> [] \<Longrightarrow> [] \<notin> set (runsLoop err rest cur)"
  by (induction rest arbitrary: cur) auto

lemma runsLoop_chained:
  "successively (\<lambda>l p. withinTimeWindow p l \<and> withinLocationRadius err p l) cur \<Longrightarrow>
     g \<in> set (runsLoop err rest cur) \<Longrightarrow>
     successively (\<lambda>l p. withinTimeWindow p l \<and> withinLocationRadius err p l) g"
proof (induction rest arbitrary: cur)
  case Nil
  then show ?case by simp
next
  case (Cons photo rest)
  show ?case
  proof (cases "withinTimeWindow photo (last cur) \<and> withinLocationRadius err photo (last cur)")
    case True
    have "successively (\<lambda>l p. withinTimeWindow p l \<and> withinLocationRadius err p l) (cur @ [photo])"
      using Cons.prems(1) True by (simp add: successively_append_iff)
    moreover have "g \<in> set (runsLoop err rest (cur @ [photo]))"
      using Cons.prems(2) unfolding runsLoop_join [OF True] .
    ultimately show ?thesis by (rule Cons.IH)
  next
    case False
    have one: "successively (\<lambda>l p. withinTimeWindow p l \<and> withinLocationRadius err p l) [photo]"
      by simp
    from Cons.prems(2) have "g = cur \<or> g \<in> set (runsLoop err rest [photo])"
      unfolding runsLoop_split [OF False] by simp
    then show ?thesis
      using Cons.prems(1) Cons.IH [OF one] by blast
  qed
qed

lemma runsLoop_boundaries:
  "cur \<noteq> [] \<Longrightarrow>
     successively
       (\<lambda>g h. \<not> (withinTimeWindow (hd h) (last g) \<and> withinLocationRadius err (hd h) (last g)))
       (runsLoop err rest cur) \<and>
     (\<exists>ys gs. runsLoop err rest cur = (cur @ ys) # gs)"
proof (induction rest arbitrary: cur)
  case Nil
  then show ?case by simp
next
  case (Cons photo rest)
  show ?case
  proof (cases "withinTimeWindow photo (last cur) \<and> withinLocationRadius err photo (last cur)")
    case True
    have "cur @ [photo] \<noteq> []" by simp
    from Cons.IH [OF this] show ?thesis
      unfolding runsLoop_join [OF True] by auto
  next
    case False
    have "[photo] \<noteq> []" by simp
    from Cons.IH [OF this] obtain ys gs
      where s: "successively
          (\<lambda>g h. \<not> (withinTimeWindow (hd h) (last g) \<and> withinLocationRadius err (hd h) (last g)))
          (runsLoop err rest [photo])"
        and e: "runsLoop err rest [photo] = ([photo] @ ys) # gs"
      by blast
    have "successively
        (\<lambda>g h. \<not> (withinTimeWindow (hd h) (last g) \<and> withinLocationRadius err (hd h) (last g)))
        (cur # runsLoop err rest [photo])"
      using s e False by (simp add: successively_Cons)
    then show ?thesis
      unfolding runsLoop_split [OF False] by simp
  qed
qed


subsection \<open>The whole function\<close>

lemma sort_key_Cons_ex: "ps \<noteq> [] \<Longrightarrow> \<exists>first rest. sort_key f ps = first # rest"
  by (cases "sort_key f ps") (auto dest: arg_cong [where f = length])

lemma clusterPhotos_runs:
  "\<exists>cs. clusterPhotos err uuids ps tid = Inr cs \<and>
        map (\<lambda>(k, g). finalizeCluster (uuids k) g tid) (enumerate 0 (photoRuns err ps)) = map Inr cs"
proof (cases "ps = []")
  case True
  then show ?thesis by (simp add: clusterPhotos_def photoRuns_def)
next
  case False
  from sort_key_Cons_ex [OF False] obtain first rest
    where srt: "sort_key timestamp ps = first # rest" by blast
  have "[first] \<noteq> []" by simp
  from clusterLoop_runs [OF this, of err uuids tid rest "[]"] False srt show ?thesis
    by (simp add: clusterPhotos_def photoRuns_def)
qed

lemma concat_photoRuns: "concat (photoRuns err ps) = sort_key timestamp ps"
  by (cases "sort_key timestamp ps") (simp_all add: photoRuns_def concat_runsLoop)

lemma photoRuns_nonempty: "[] \<notin> set (photoRuns err ps)"
  by (cases "sort_key timestamp ps") (simp_all add: photoRuns_def runsLoop_nonempty)

lemma photoRuns_chained:
  "g \<in> set (photoRuns err ps) \<Longrightarrow>
     successively (\<lambda>l p. withinTimeWindow p l \<and> withinLocationRadius err p l) g"
proof (cases "sort_key timestamp ps")
  case Nil
  assume "g \<in> set (photoRuns err ps)"
  with Nil show ?thesis by (simp add: photoRuns_def)
next
  case (Cons first rest)
  assume "g \<in> set (photoRuns err ps)"
  with Cons have "g \<in> set (runsLoop err rest [first])" by (simp add: photoRuns_def)
  moreover have "successively (\<lambda>l p. withinTimeWindow p l \<and> withinLocationRadius err p l) [first]"
    by simp
  ultimately show ?thesis by (rule runsLoop_chained [rotated])
qed

lemma photoRuns_boundaries:
  "successively
     (\<lambda>g h. \<not> (withinTimeWindow (hd h) (last g) \<and> withinLocationRadius err (hd h) (last g)))
     (photoRuns err ps)"
proof (cases "sort_key timestamp ps")
  case Nil
  then show ?thesis by (simp add: photoRuns_def)
next
  case (Cons first rest)
  have "[first] \<noteq> []" by simp
  from runsLoop_boundaries [OF this, of err rest] Cons show ?thesis
    by (simp add: photoRuns_def)
qed

lemma finalized_all2:
  "map (\<lambda>(k, g). finalizeCluster (uuids k) g tid) (enumerate n gs) = map Inr cs \<Longrightarrow>
     list_all2 (\<lambda>g c. \<exists>u. finalizeCluster u g tid = Inr c) gs cs"
proof (induction gs arbitrary: n cs)
  case Nil
  then show ?case by simp
next
  case (Cons g gs)
  then obtain c cs' where cs: "cs = c # cs'" by (cases cs) simp_all
  from Cons.prems have "finalizeCluster (uuids n) g tid = Inr c"
    and "map (\<lambda>(k, g). finalizeCluster (uuids k) g tid) (enumerate (Suc n) gs) = map Inr cs'"
    by (simp_all add: cs)
  with Cons.IH [of "Suc n" cs'] show ?case
    by (auto simp: cs)
qed

lemma finalized_photos:
  "list_all2 (\<lambda>g c. \<exists>u. finalizeCluster u g tid = Inr c) gs cs \<Longrightarrow>
     map photos cs = map (map toMetadata) gs"
  by (induction gs cs rule: list_all2_induct) (auto dest: finalizeCluster_Inr(4))

lemma finalized_member:
  "list_all2 (\<lambda>g c. \<exists>u. finalizeCluster u g tid = Inr c) gs cs \<Longrightarrow> c \<in> set cs \<Longrightarrow>
     \<exists>g u. finalizeCluster u g tid = Inr c"
  by (induction gs cs rule: list_all2_induct) auto

lemma same_photo_toMetadata: "same_photo (toMetadata p) p"
  by (simp add: same_photo_def toMetadata_def)

lemma same_photo_map_toMetadata: "list_all2 same_photo (map toMetadata g) g"
  by (simp add: list_all2_map1 list_all2_same same_photo_toMetadata)

lemma finalized_same:
  "list_all2 (\<lambda>g c. \<exists>u. finalizeCluster u g tid = Inr c) gs cs \<Longrightarrow>
     list_all2 (\<lambda>c g. list_all2 same_photo (photos c) g) cs gs"
  by (induction gs cs rule: list_all2_induct)
    (auto dest!: finalizeCluster_Inr(4) simp: same_photo_map_toMetadata)

lemma within_tests:
  "(withinTimeWindow p l \<longleftrightarrow> timestamp p - timestamp l \<le> 3600000) \<and>
   (withinLocationRadius err p l \<longleftrightarrow>
      (\<forall>a b. location p = Some a \<and> location l = Some b \<longrightarrow>
         (\<exists>d. calculateDistance err a b = Some d \<and> d \<le> 200)))"
  by (auto simp: withinTimeWindow_def withinLocationRadius_def TIME_CLUSTER_WINDOW_def
      LOCATION_CLUSTER_RADIUS_def Let_def split: option.splits)

text \<open>
  Claim C1. \<open>clusterPhotos\<close> sorts the photos by timestamp and cuts the sorted sequence
  into consecutive non-empty runs; it emits one cluster per run, in order, the last run
  included, and the photos of each cluster are the copies of the photos of its run, in
  the same order. Within a run every photo passes both tests against the photo just
  before it, which is the last photo appended to the current cluster; the first photo of
  every later run fails a test against the last photo of the run before it. The time
  test is that the timestamp difference is at most 3,600,000 ms; the location test is
  that the distance is a number of at most 200 m when both photos have a location, and
  holds when either has none.
\<close>

theorem clusterPhotos_chain:
  "(\<exists>groups cs.
      clusterPhotos err uuids ps tid = Inr cs \<and>
      map (\<lambda>(k, g). finalizeCluster (uuids k) g tid) (enumerate 0 groups) = map Inr cs \<and>
      map photos cs = map (map toMetadata) groups \<and>
      list_all2 (\<lambda>c g. list_all2 same_photo (photos c) g) cs groups \<and>
      concat groups = sort_key timestamp ps \<and>
      (\<forall>g\<in>set groups. g \<noteq> [] \<and>
         successively (\<lambda>l p. withinTimeWindow p l \<and> withinLocationRadius err p l) g) \<and>
      successively
        (\<lambda>g h. \<not> (withinTimeWindow (hd h) (last g) \<and> withinLocationRadius err (hd h) (last g)))
        groups) \<and>
   (withinTimeWindow p l \<longleftrightarrow> timestamp p - timestamp l \<le> 3600000) \<and>
   (withinLocationRadius err p l \<longleftrightarrow>
      (\<forall>a b. location p = Some a \<and> location l = Some b \<longrightarrow>
         (\<exists>d. calculateDistance err a b = Some d \<and> d \<le> 200)))"
proof -
  from clusterPhotos_runs [of err uuids ps tid] obtain cs
    where cs: "clusterPhotos err uuids ps tid = Inr cs"
      "map (\<lambda>(k, g). finalizeCluster (uuids k) g tid) (enumerate 0 (photoRuns err ps)) = map Inr cs"
    by blast
  note all2 = finalized_all2 [OF cs(2)]
  have ph: "map photos cs = map (map toMetadata) (photoRuns err ps)"
    by (rule finalized_photos [OF all2])
  have same: "list_all2 (\<lambda>c g. list_all2 same_photo (photos c) g) cs (photoRuns err ps)"
    by (rule finalized_same [OF all2])
  have "\<forall>g\<in>set (photoRuns err ps). g \<noteq> [] \<and>
      successively (\<lambda>l p. withinTimeWindow p l \<and> withinLocationRadius err p l) g"
    using photoRuns_nonempty [of err ps] photoRuns_chained [of _ err ps] by blast
  with cs ph same concat_photoRuns [of err ps] photoRuns_boundaries [of err ps]
  have "\<exists>groups cs.
      clusterPhotos err uuids ps tid = Inr cs \<and>
      map (\<lambda>(k, g). finalizeCluster (uuids k) g tid) (enumerate 0 groups) = map Inr cs \<and>
      map photos cs = map (map toMetadata) groups \<and>
      list_all2 (\<lambda>c g. list_all2 same_photo (photos c) g) cs groups \<and>
      concat groups = sort_key timestamp ps \<and>
      (\<forall>g\<in>set groups. g \<noteq> [] \<and>
         successively (\<lambda>l p. withinTimeWindow p l \<and> withinLocationRadius err p l) g) \<and>
      successively
        (\<lambda>g h. \<not> (withinTimeWindow (hd h) (last g) \<and> withinLocationRadius err (hd h) (last g)))
        groups"
    by blast
  with within_tests [of p l err] show ?thesis by blast
qed

text \<open>
  Claim C2. \<open>clusterPhotos\<close> returns, and for every cluster it returns: the cluster has
  photos, \<open>startTime\<close> is the timestamp of its first photo, \<open>endTime\<close> is the timestamp
  of its last photo, and \<open>centerLocation\<close> is the arithmetic mean of latitude and of
  longitude over the locations of exactly those of its photos that have one, or the point
  \<open>(0, 0)\<close> when none has.
\<close>

theorem clusterPhotos_cluster_invariant:
  "\<exists>cs. clusterPhotos err uuids ps tid = Inr cs \<and>
     (\<forall>c\<in>set cs.
        photos c \<noteq> [] \<and>
        startTime c = timestamp (hd (photos c)) \<and>
        endTime c = timestamp (last (photos c)) \<and>
        (List.map_filter location (photos c) = [] \<longrightarrow>
           centerLocation c = \<lparr>latitude = 0, longitude = 0\<rparr>) \<and>
        (List.map_filter location (photos c) \<noteq> [] \<longrightarrow>
           centerLocation c =
             \<lparr>latitude = sum_list (map latitude (List.map_filter location (photos c))) /
                  real (length (List.map_filter location (photos c))),
              longitude = sum_list (map longitude (List.map_filter location (photos c))) /
                  real (length (List.map_filter location (photos c)))\<rparr>))"
proof -
  from clusterPhotos_runs [of err uuids ps tid] obtain cs
    where cs: "clusterPhotos err uuids ps tid = Inr cs"
      "map (\<lambda>(k, g). finalizeCluster (uuids k) g tid) (enumerate 0 (photoRuns err ps)) = map Inr cs"
    by blast
  note all2 = finalized_all2 [OF cs(2)]
  have "photos c \<noteq> [] \<and>
        startTime c = timestamp (hd (photos c)) \<and>
        endTime c = timestamp (last (photos c)) \<and>
        (List.map_filter location (photos c) = [] \<longrightarrow>
           centerLocation c = \<lparr>latitude = 0, longitude = 0\<rparr>) \<and>
        (List.map_filter location (photos c) \<noteq> [] \<longrightarrow>
           centerLocation c =
             \<lparr>latitude = sum_list (map latitude (List.map_filter location (photos c))) /
                  real (length (List.map_filter location (photos c))),
              longitude = sum_list (map longitude (List.map_filter location (photos c))) /
                  real (length (List.map_filter location (photos c)))\<rparr>)"
    if "c \<in> set cs" for c
  proof -
    from finalized_member [OF all2 that] obtain g u
      where f: "finalizeCluster u g tid = Inr c" by blast
    note F = finalizeCluster_Inr [OF f]
    have ph: "photos c = map toMetadata g" by (rule F(4))
    have ne: "g \<noteq> []" by (rule F(1))
    have mf: "List.map_filter location (photos c) = List.map_filter location g"
      by (simp add: ph map_filter_location_toMetadata)
    have "timestamp (hd (photos c)) = timestamp (hd g)"
      using ne by (simp add: ph hd_map timestamp_toMetadata)
    moreover have "timestamp (last (photos c)) = timestamp (last g)"
      using ne by (simp add: ph last_map timestamp_toMetadata)
    ultimately show ?thesis
      using F(5,6,8,9) ne unfolding mf by (simp add: ph)
  qed
  with cs(1) show ?thesis by blast
qed

text \<open>
  Claim C10. \<open>clusterPhotos\<close> returns clusters that partition the input: every cluster
  has photos, and the photos of the clusters, concatenated in the order of the clusters,
  are the copies, field by field, of the input sorted ascending by timestamp, one for
  one and in that order: no photo is dropped, duplicated or moved. An empty input gives
  no cluster and a single photo gives one cluster with the copy of that photo.
\<close>

theorem clusterPhotos_partition:
  "\<exists>cs. clusterPhotos err uuids ps tid = Inr cs \<and>
     (\<forall>c\<in>set cs. photos c \<noteq> []) \<and>
     concat (map photos cs) = map toMetadata (sort_key timestamp ps) \<and>
     list_all2 same_photo (concat (map photos cs)) (sort_key timestamp ps) \<and>
     map nativeId (concat (map photos cs)) = map nativeId (sort_key timestamp ps) \<and>
     mset (map nativeId (concat (map photos cs))) = mset (map nativeId ps) \<and>
     mset (concat (map photos cs)) = mset (map toMetadata ps) \<and>
     length (concat (map photos cs)) = length ps \<and>
     sorted (map timestamp (concat (map photos cs))) \<and>
     (ps = [] \<longrightarrow> cs = []) \<and>
     (\<forall>p. ps = [p] \<longrightarrow> (\<exists>c m. cs = [c] \<and> photos c = [m] \<and> same_photo m p))"
proof -
  from clusterPhotos_runs [of err uuids ps tid] obtain cs
    where cs: "clusterPhotos err uuids ps tid = Inr cs"
      "map (\<lambda>(k, g). finalizeCluster (uuids k) g tid) (enumerate 0 (photoRuns err ps)) = map Inr cs"
    by blast
  note all2 = finalized_all2 [OF cs(2)]
  have ph: "map photos cs = map (map toMetadata) (photoRuns err ps)"
    by (rule finalized_photos [OF all2])
  have len: "length cs = length (photoRuns err ps)"
    using all2 by (simp add: list_all2_lengthD)
  have ne: "\<forall>c\<in>set cs. photos c \<noteq> []"
  proof
    fix c assume "c \<in> set cs"
    from finalized_member [OF all2 this] obtain g u
      where "finalizeCluster u g tid = Inr c" by blast
    from finalizeCluster_Inr(1,4) [OF this] show "photos c \<noteq> []" by simp
  qed
  have cc: "concat (map photos cs) = map toMetadata (sort_key timestamp ps)"
    unfolding ph by (simp add: map_concat [symmetric] concat_photoRuns)
  have sm: "list_all2 same_photo (concat (map photos cs)) (sort_key timestamp ps)"
    unfolding cc by (rule same_photo_map_toMetadata)
  have "map nativeId (map toMetadata (sort_key timestamp ps)) = map nativeId (sort_key timestamp ps)"
    by (simp add: toMetadata_def)
  then have ids: "map nativeId (concat (map photos cs)) = map nativeId (sort_key timestamp ps)"
    unfolding cc .
  have "mset (map nativeId (sort_key timestamp ps)) = mset (map nativeId ps)"
    by (metis mset_map mset_sort)
  then have mids: "mset (map nativeId (concat (map photos cs))) = mset (map nativeId ps)"
    unfolding ids .
  have ms: "mset (concat (map photos cs)) = mset (map toMetadata ps)"
    unfolding cc by simp
  have ln: "length (concat (map photos cs)) = length ps"
    unfolding cc by simp
  have "map timestamp (map toMetadata (sort_key timestamp ps)) =
      map timestamp (sort_key timestamp ps)"
    by (simp add: timestamp_toMetadata)
  then have so: "sorted (map timestamp (concat (map photos cs)))"
    unfolding cc by (simp only: sorted_sort_key)
  have em: "ps = [] \<longrightarrow> cs = []"
    using len by (auto simp: photoRuns_def)
  have one: "\<forall>p. ps = [p] \<longrightarrow> (\<exists>c m. cs = [c] \<and> photos c = [m] \<and> same_photo m p)"
  proof (intro allI impI)
    fix p assume "ps = [p]"
    then have "photoRuns err ps = [[p]]" by (simp add: photoRuns_def)
    with ph have "\<exists>c. cs = [c] \<and> photos c = [toMetadata p]"
      by (cases cs) auto
    then show "\<exists>c m. cs = [c] \<and> photos c = [m] \<and> same_photo m p"
      using same_photo_toMetadata [of p] by blast
  qed
  from cs(1) ne cc sm ids mids ms ln so em one show ?thesis by blast
qed

lemmas example_photo_defs =
  p0_def p30_def p65_def p200_def q0_def q10_def q20_def r0_def r10_def r20_def photo_at_def

lemma withinLocationRadius_examples:
  "withinLocationRadius exact q10 q0" "\<not> withinLocationRadius exact q20 q10"
  "withinLocationRadius err p30 q0"
  using pi_ge_two
  by (simp_all add: withinLocationRadius_def example_photo_defs calculateDistance_same
      calculateDistance_half_turn_back LOCATION_CLUSTER_RADIUS_def)

lemma clusterPhotos_unlocated_example:
  "\<exists>a b. clusterPhotos exact example_uuids [p65, p0, p200, p30] ''trip-1'' = Inr [a, b] \<and>
     photos a = map toMetadata [p0, p30, p65] \<and> photos b = [toMetadata p200]"
  by (simp add: clusterPhotos_def finalizeCluster_def example_photo_defs Let_def
      withinTimeWindow_def withinLocationRadius_def TIME_CLUSTER_WINDOW_def)

lemma clusterPhotos_located_example:
  "\<exists>a b. clusterPhotos exact example_uuids [q20, q0, q10] ''trip-1'' = Inr [a, b] \<and>
     photos a = map toMetadata [q0, q10] \<and> photos b = [toMetadata q20]"
proof -
  have srt: "sort_key timestamp [q20, q0, q10] = [q0, q10, q20]"
    by (simp add: example_photo_defs)
  have t: "withinTimeWindow q10 q0" "withinTimeWindow q20 q10"
    by (simp_all add: withinTimeWindow_def example_photo_defs TIME_CLUSTER_WINDOW_def)
  show ?thesis
    unfolding clusterPhotos_def srt
    by (simp add: t withinLocationRadius_examples finalizeCluster_def Let_def)
qed

theorem clusterPhotos_chain_witness:
  "(\<exists>cs. clusterPhotos exact example_uuids [p65, p0, p200, p30] ''trip-1'' = Inr cs \<and>
      map photos cs = map (map toMetadata) [[p0, p30, p65], [p200]] \<and>
      map (map nativeId) (map photos cs) = [[''p0'', ''p30'', ''p65''], [''p200'']]) \<and>
   (\<exists>cs. clusterPhotos exact example_uuids [q20, q0, q10] ''trip-1'' = Inr cs \<and>
      map photos cs = map (map toMetadata) [[q0, q10], [q20]] \<and>
      map (map nativeId) (map photos cs) = [[''q0'', ''q10''], [''q20'']]) \<and>
   withinTimeWindow p65 p30 \<and> \<not> withinTimeWindow p200 p65 \<and>
   withinLocationRadius exact p30 q0 \<and> withinLocationRadius exact q10 q0 \<and>
   \<not> withinLocationRadius exact q20 q10"
proof -
  note T = clusterPhotos_chain
  from T [of exact example_uuids "[p65, p0, p200, p30]" "''trip-1''" p65 p30]
  obtain groups cs where g:
    "clusterPhotos exact example_uuids [p65, p0, p200, p30] ''trip-1'' = Inr cs"
    "map photos cs = map (map toMetadata) groups"
    "concat groups = sort_key timestamp [p65, p0, p200, p30]"
    and t1: "withinTimeWindow p65 p30 \<longleftrightarrow> timestamp p65 - timestamp p30 \<le> 3600000"
    by blast
  have srt: "sort_key timestamp [p65, p0, p200, p30] = [p0, p30, p65, p200]"
    by (simp add: example_photo_defs)
  from clusterPhotos_unlocated_example g(1) obtain a b
    where ab: "cs = [a, b]" "photos a = map toMetadata [p0, p30, p65]"
      "photos b = [toMetadata p200]"
    by auto
  from g(2) ab obtain g1 g2 where gs: "groups = [g1, g2]"
    and l: "map toMetadata g1 = map toMetadata [p0, p30, p65]"
      "map toMetadata g2 = [toMetadata p200]"
    by (cases groups; cases "tl groups") auto
  from l have len: "length g1 = 3" "length g2 = 1"
    by (auto dest: arg_cong [where f = length])
  from g(3) gs srt have "g1 @ g2 = [p0, p30, p65, p200]" by simp
  with len have "g1 = [p0, p30, p65]" "g2 = [p200]"
    by (simp_all add: append_eq_conv_conj)
  with gs have groups: "groups = [[p0, p30, p65], [p200]]" by simp
  have first: "\<exists>cs. clusterPhotos exact example_uuids [p65, p0, p200, p30] ''trip-1'' = Inr cs \<and>
      map photos cs = map (map toMetadata) [[p0, p30, p65], [p200]] \<and>
      map (map nativeId) (map photos cs) = [[''p0'', ''p30'', ''p65''], [''p200'']]"
    using g(1,2) groups by (auto simp: toMetadata_def example_photo_defs)
  from T [of exact example_uuids "[q20, q0, q10]" "''trip-1''" q10 q0]
  obtain groups' cs' where g':
    "clusterPhotos exact example_uuids [q20, q0, q10] ''trip-1'' = Inr cs'"
    "map photos cs' = map (map toMetadata) groups'"
    "concat groups' = sort_key timestamp [q20, q0, q10]"
    by blast
  have srt': "sort_key timestamp [q20, q0, q10] = [q0, q10, q20]"
    by (simp add: example_photo_defs)
  from clusterPhotos_located_example g'(1) obtain c d
    where cd: "cs' = [c, d]" "photos c = map toMetadata [q0, q10]"
      "photos d = [toMetadata q20]"
    by auto
  from g'(2) cd obtain h1 h2 where hs: "groups' = [h1, h2]"
    and l': "map toMetadata h1 = map toMetadata [q0, q10]"
      "map toMetadata h2 = [toMetadata q20]"
    by (cases groups'; cases "tl groups'") auto
  from l' have len': "length h1 = 2" "length h2 = 1"
    by (auto dest: arg_cong [where f = length])
  from g'(3) hs srt' have "h1 @ h2 = [q0, q10, q20]" by simp
  with len' have "h1 = [q0, q10]" "h2 = [q20]"
    by (simp_all add: append_eq_conv_conj)
  with hs have groups': "groups' = [[q0, q10], [q20]]" by simp
  have second: "\<exists>cs. clusterPhotos exact example_uuids [q20, q0, q10] ''trip-1'' = Inr cs \<and>
      map photos cs = map (map toMetadata) [[q0, q10], [q20]] \<and>
      map (map nativeId) (map photos cs) = [[''q0'', ''q10''], [''q20'']]"
    using g'(1,2) groups' by (auto simp: toMetadata_def example_photo_defs)
  have a: "withinTimeWindow p65 p30"
    using t1 by (simp add: example_photo_defs)
  have b: "\<not> withinTimeWindow p200 p65"
    using T [of exact example_uuids "[]" "''trip-1''" p200 p65]
    by (simp add: example_photo_defs)
  have c: "withinLocationRadius exact p30 q0"
    using T [of exact example_uuids "[]" "''trip-1''" p30 q0]
    by (simp add: example_photo_defs)
  have d: "withinLocationRadius exact q10 q0"
    using T [of exact example_uuids "[]" "''trip-1''" q10 q0]
    by (simp add: example_photo_defs calculateDistance_same)
  have "\<not> 6371000 * pi \<le> 200" using pi_ge_two by simp
  then have e: "\<not> withinLocationRadius exact q20 q10"
    using T [of exact example_uuids "[]" "''trip-1''" q20 q10]
    by (simp add: example_photo_defs calculateDistance_half_turn_back)
  from first second a b c d e show ?thesis by blast
qed

theorem clusterPhotos_cluster_invariant_witness:
  "\<exists>a b. clusterPhotos exact example_uuids [r20, p200, r0, r10] ''trip-1'' = Inr [a, b] \<and>
     photos a = map toMetadata [r0, r10, r20] \<and> photos b = [toMetadata p200] \<and>
     startTime a = 0 \<and> endTime a = 1200000 \<and>
     centerLocation a = \<lparr>latitude = 20, longitude = 30\<rparr> \<and>
     startTime b = 12000000 \<and> endTime b = 12000000 \<and>
     centerLocation b = \<lparr>latitude = 0, longitude = 0\<rparr>"
proof -
  from clusterPhotos_cluster_invariant [of exact example_uuids "[r20, p200, r0, r10]" "''trip-1''"]
  obtain cs where cs: "clusterPhotos exact example_uuids [r20, p200, r0, r10] ''trip-1'' = Inr cs"
    and inv: "\<forall>c\<in>set cs.
        photos c \<noteq> [] \<and>
        startTime c = timestamp (hd (photos c)) \<and>
        endTime c = timestamp (last (photos c)) \<and>
        (List.map_filter location (photos c) = [] \<longrightarrow>
           centerLocation c = \<lparr>latitude = 0, longitude = 0\<rparr>) \<and>
        (List.map_filter location (photos c) \<noteq> [] \<longrightarrow>
           centerLocation c =
             \<lparr>latitude = sum_list (map latitude (List.map_filter location (photos c))) /
                  real (length (List.map_filter location (photos c))),
              longitude = sum_list (map longitude (List.map_filter location (photos c))) /
                  real (length (List.map_filter location (photos c)))\<rparr>)"
    by blast
  have "\<exists>a b. clusterPhotos exact example_uuids [r20, p200, r0, r10] ''trip-1'' = Inr [a, b] \<and>
      photos a = map toMetadata [r0, r10, r20] \<and> photos b = [toMetadata p200]"
    by (simp add: clusterPhotos_def finalizeCluster_def example_photo_defs Let_def
        withinTimeWindow_def withinLocationRadius_def TIME_CLUSTER_WINDOW_def)
  then obtain a b where ab: "clusterPhotos exact example_uuids [r20, p200, r0, r10] ''trip-1'' = Inr [a, b]"
    "photos a = map toMetadata [r0, r10, r20]" "photos b = [toMetadata p200]"
    by blast
  from ab(1) cs have "cs = [a, b]" by simp
  with inv have ia: "startTime a = timestamp (hd (photos a))"
      "endTime a = timestamp (last (photos a))"
      "List.map_filter location (photos a) \<noteq> [] \<longrightarrow>
           centerLocation a =
             \<lparr>latitude = sum_list (map latitude (List.map_filter location (photos a))) /
                  real (length (List.map_filter location (photos a))),
              longitude = sum_list (map longitude (List.map_filter location (photos a))) /
                  real (length (List.map_filter location (photos a)))\<rparr>"
    and ib: "startTime b = timestamp (hd (photos b))"
      "endTime b = timestamp (last (photos b))"
      "List.map_filter location (photos b) = [] \<longrightarrow>
           centerLocation b = \<lparr>latitude = 0, longitude = 0\<rparr>"
    by simp_all
  have la: "List.map_filter location (photos a) =
      [\<lparr>latitude = 10, longitude = 20\<rparr>, \<lparr>latitude = 30, longitude = 40\<rparr>]"
    by (simp add: ab(2) List.map_filter_simps toMetadata_def example_photo_defs)
  have lb: "List.map_filter location (photos b) = []"
    by (simp add: ab(3) List.map_filter_simps toMetadata_def example_photo_defs)
  have "startTime a = 0" "endTime a = 1200000" "startTime b = 12000000" "endTime b = 12000000"
    using ia(1,2) ib(1,2) by (simp_all add: ab(2,3) toMetadata_def example_photo_defs)
  moreover have "centerLocation a = \<lparr>latitude = 20, longitude = 30\<rparr>"
    using ia(3) unfolding la by simp
  moreover have "centerLocation b = \<lparr>latitude = 0, longitude = 0\<rparr>"
    using ib(3) lb by simp
  ultimately show ?thesis using ab by blast
qed

theorem clusterPhotos_partition_witness:
  "(\<exists>a b. clusterPhotos exact example_uuids [p65, p0, p200, p30] ''trip-1'' = Inr [a, b] \<and>
      map nativeId (photos a @ photos b) = [''p0'', ''p30'', ''p65'', ''p200''] \<and>
      map timestamp (photos a @ photos b) = [0, 1800000, 3900000, 12000000] \<and>
      photos a \<noteq> [] \<and> photos b \<noteq> []) \<and>
   clusterPhotos exact example_uuids [] ''trip-1'' = Inr [] \<and>
   (\<exists>c m. clusterPhotos exact example_uuids [p0] ''trip-1'' = Inr [c] \<and> photos c = [m] \<and>
      nativeId m = ''p0'' \<and> timestamp m = 0)"
proof -
  note T = clusterPhotos_partition
  from T [of exact example_uuids "[p65, p0, p200, p30]" "''trip-1''"]
  obtain cs where cs: "clusterPhotos exact example_uuids [p65, p0, p200, p30] ''trip-1'' = Inr cs"
    "\<forall>c\<in>set cs. photos c \<noteq> []"
    "list_all2 same_photo (concat (map photos cs)) (sort_key timestamp [p65, p0, p200, p30])"
    by (elim exE conjE) blast
  have srt: "sort_key timestamp [p65, p0, p200, p30] = [p0, p30, p65, p200]"
    by (simp add: example_photo_defs)
  from clusterPhotos_unlocated_example cs(1) obtain a b where ab: "cs = [a, b]"
    by auto
  from cs(3) have "map nativeId (concat (map photos cs)) =
      map nativeId (sort_key timestamp [p65, p0, p200, p30])"
    and "map timestamp (concat (map photos cs)) =
      map timestamp (sort_key timestamp [p65, p0, p200, p30])"
    by (induction rule: list_all2_induct) (simp_all add: same_photo_def)
  with ab srt cs(1,2)
  have first: "\<exists>a b. clusterPhotos exact example_uuids [p65, p0, p200, p30] ''trip-1'' = Inr [a, b] \<and>
      map nativeId (photos a @ photos b) = [''p0'', ''p30'', ''p65'', ''p200''] \<and>
      map timestamp (photos a @ photos b) = [0, 1800000, 3900000, 12000000] \<and>
      photos a \<noteq> [] \<and> photos b \<noteq> []"
    by (auto simp: example_photo_defs)
  have second: "clusterPhotos exact example_uuids [] ''trip-1'' = Inr []"
    using T [of exact example_uuids "[]" "''trip-1''"] by auto
  from T [of exact example_uuids "[p0]" "''trip-1''"]
  obtain c m where "clusterPhotos exact example_uuids [p0] ''trip-1'' = Inr [c]"
    "photos c = [m]" "same_photo m p0"
    by auto
  then have third: "\<exists>c m. clusterPhotos exact example_uuids [p0] ''trip-1'' = Inr [c] \<and>
      photos c = [m] \<and> nativeId m = ''p0'' \<and> timestamp m = 0"
    by (auto simp: same_photo_def example_photo_defs)
  from first second third show ?thesis by blast
qed

end
